theory Spec2Isabelle
  imports Complex_Main "HOL-Library.Multiset"
begin

section \<open>JavaScript strings\<close>

text \<open>
  A JavaScript string is a sequence of UTF-16 code units; \<open>length\<close>, \<open>slice\<close> and
  \<open>padStart\<close> count code units. A code unit is modelled as its number, so that the
  regular-expression classes of the source (\<open>\s\<close>, \<open>\d\<close>) are sets of numbers. \<open>js\<close>
  writes an ASCII literal.
\<close>

type_synonym jsstring = "nat list"

definition js :: "string \<Rightarrow> jsstring" where
  "js s = map of_char s"

definition isWhiteSpace :: "nat \<Rightarrow> bool" where
  \<comment> \<open>the class \<open>\s\<close> of ECMAScript: WhiteSpace and LineTerminator\<close>
  "isWhiteSpace c \<longleftrightarrow>
     c = 0x09 \<or> c = 0x0A \<or> c = 0x0B \<or> c = 0x0C \<or> c = 0x0D \<or> c = 0x20 \<or> c = 0xA0 \<or>
     c = 0x1680 \<or> (0x2000 \<le> c \<and> c \<le> 0x200A) \<or> c = 0x2028 \<or> c = 0x2029 \<or>
     c = 0x202F \<or> c = 0x205F \<or> c = 0x3000 \<or> c = 0xFEFF"

definition isDigit :: "nat \<Rightarrow> bool" where
  \<comment> \<open>the class \<open>\d\<close>: the ten ASCII digits\<close>
  "isDigit c \<longleftrightarrow> 0x30 \<le> c \<and> c \<le> 0x39"

definition isDashOrSpace :: "nat \<Rightarrow> bool" where
  \<comment> \<open>the class \<open>[-\s]\<close>\<close>
  "isDashOrSpace c \<longleftrightarrow> c = 0x2D \<or> isWhiteSpace c"

definition allDigits :: "jsstring \<Rightarrow> bool" where
  \<comment> \<open>\<open>/^\d+$/.test(s)\<close>: one digit at least, and digits only\<close>
  "allDigits s \<longleftrightarrow> s \<noteq> [] \<and> list_all isDigit s"

definition slice :: "int \<Rightarrow> int \<Rightarrow> 'a list \<Rightarrow> 'a list" where
  \<comment> \<open>\<open>s.slice(a, b)\<close>: a negative index counts from the end, both are clamped\<close>
  "slice a b s =
     (let len = int (length s);
          from = (if a < 0 then max (len + a) 0 else min a len);
          to = (if b < 0 then max (len + b) 0 else min b len)
      in take (nat (to - from)) (drop (nat from) s))"

definition sliceFrom :: "int \<Rightarrow> 'a list \<Rightarrow> 'a list" where
  \<comment> \<open>\<open>s.slice(a)\<close>\<close>
  "sliceFrom a s = slice a (int (length s)) s"

definition padStart :: "nat \<Rightarrow> 'a \<Rightarrow> 'a list \<Rightarrow> 'a list" where
  \<comment> \<open>\<open>s.padStart(n, c)\<close> with a filler of one code unit\<close>
  "padStart n c s = replicate (n - length s) c @ s"

section \<open>Bank account service (services/bankAccount.js)\<close>

text \<open>Every \<open>throw new Error(msg)\<close> of the source is the value \<open>Inl (Error msg)\<close>.\<close>

datatype error = Error jsstring

record BankAccountParsed =
  bank :: jsstring
  account :: jsstring
  control :: jsstring
  formatted :: jsstring
  digits :: jsstring

definition stripSeparators :: "jsstring \<Rightarrow> jsstring" where
  \<comment> \<open>\<open>input.replace(/[-\s]/g, '')\<close>\<close>
  "stripSeparators input = filter (\<lambda>c. \<not> isDashOrSpace c) input"

definition parseBankAccount :: "jsstring \<Rightarrow> error + BankAccountParsed" where
  "parseBankAccount input =
     (if input = [] then Inl (Error (js ''Bank account number is required''))
      else
        let ds = stripSeparators input in
        if \<not> allDigits ds then Inl (Error (js ''Bank account must contain only digits''))
        else if length ds = 18 then
          Inr \<lparr>bank = slice 0 3 ds,
               account = slice 3 16 ds,
               control = slice 16 18 ds,
               formatted = slice 0 3 ds @ js ''-'' @ slice 3 16 ds @ js ''-'' @ slice 16 18 ds,
               digits = ds\<rparr>
        else if 7 \<le> length ds \<and> length ds < 18 then
          let b = slice 0 3 ds;
              c = sliceFrom (- 2) ds;
              accountPart = slice 3 (- 2) ds;
              a = padStart 13 0x30 accountPart
          in Inr \<lparr>bank = b, account = a, control = c,
                  formatted = b @ js ''-'' @ a @ js ''-'' @ c,
                  digits = b @ a @ c\<rparr>
        else Inl (Error (js
          ''Invalid bank account format. Must be 7-18 digits (e.g., 16054891267 or 160-0000000548912-67)'')))"

definition formatForDisplay :: "jsstring \<Rightarrow> error + jsstring" where
  "formatForDisplay bankAccount =
     (case parseBankAccount bankAccount of Inl e \<Rightarrow> Inl e | Inr parsed \<Rightarrow> Inr (formatted parsed))"

definition formatForQR :: "jsstring \<Rightarrow> error + jsstring" where
  "formatForQR bankAccount =
     (case parseBankAccount bankAccount of Inl e \<Rightarrow> Inl e | Inr parsed \<Rightarrow> Inr (digits parsed))"

definition isValidBankAccount :: "jsstring \<Rightarrow> bool" where
  \<comment> \<open>\<open>try { parseBankAccount(input); return true } catch { return false }\<close>\<close>
  "isValidBankAccount input =
     (case parseBankAccount input of Inl e \<Rightarrow> False | Inr parsed \<Rightarrow> True)"

section \<open>JavaScript numbers\<close>

text \<open>
  A JavaScript number is an IEEE-754 double. The finite doubles are rational numbers, and
  \<open>toFixed\<close> is specified on the exact mathematical value of its argument, so a finite
  number is modelled as the rational it denotes; what is proved of every rational holds of
  every finite double. The three values that are no rationals are constructors of their own.
\<close>

datatype jsnum = Fin rat | NaN | PosInf | NegInf

definition truthy :: "jsnum \<Rightarrow> bool" where
  \<comment> \<open>\<open>ToBoolean\<close>: zero and \<open>NaN\<close> are falsy\<close>
  "truthy x = (case x of Fin q \<Rightarrow> q \<noteq> 0 | NaN \<Rightarrow> False | PosInf \<Rightarrow> True | NegInf \<Rightarrow> True)"

fun decimal :: "nat \<Rightarrow> jsstring" where
  \<comment> \<open>the decimal digits of a natural number, most significant first\<close>
  "decimal n = (if n < 10 then [0x30 + n] else decimal (n div 10) @ [0x30 + n mod 10])"

declare decimal.simps [simp del]

definition intToString :: "int \<Rightarrow> jsstring" where
  \<comment> \<open>\<open>String(n)\<close> for an integer \<open>n\<close>\<close>
  "intToString i = (if i < 0 then js ''-'' @ decimal (nat (- i)) else decimal (nat i))"

definition toFixed2 :: "(rat \<Rightarrow> jsstring) \<Rightarrow> jsnum \<Rightarrow> jsstring" where
  \<comment> \<open>\<open>Number.prototype.toFixed(2)\<close> of ECMAScript. A value that is not finite is printed by
      \<open>Number::toString\<close>. A finite value loses its sign; from \<open>10^21\<close> on it is printed by
      \<open>Number::toString\<close> too, whose digits depend on the neighbouring doubles and are
      taken from the parameter \<open>large\<close>; below, \<open>n\<close> is the integer with \<open>n / 100\<close>
      nearest to the value (the larger one of two), printed with three digits at least and
      a point before the last two.\<close>
  "toFixed2 large x =
     (case x of
        NaN \<Rightarrow> js ''NaN''
      | PosInf \<Rightarrow> js ''Infinity''
      | NegInf \<Rightarrow> js ''-Infinity''
      | Fin q \<Rightarrow>
          let s = (if q < 0 then js ''-'' else []);
              a = \<bar>q\<bar>
          in if 10 ^ 21 \<le> a then s @ large a
             else
               let n = nat \<lfloor>a * 100 + 1 / 2\<rfloor>;
                   m = padStart 3 0x30 (decimal n);
                   k = length m
               in s @ take (k - 2) m @ js ''.'' @ drop (k - 2) m)"

fun replaceFirst :: "nat \<Rightarrow> jsstring \<Rightarrow> jsstring \<Rightarrow> jsstring" where
  \<comment> \<open>\<open>s.replace(c, r)\<close> with a pattern string of one code unit: the first occurrence only\<close>
  "replaceFirst c r [] = []"
| "replaceFirst c r (x # xs) = (if x = c then r @ xs else x # replaceFirst c r xs)"

section \<open>Records of the persistence layer\<close>

record Building =
  address :: jsstring
  city :: jsstring
  bank_account :: jsstring
  default_amount :: jsnum
  recipient_name :: jsstring
  payment_purpose :: jsstring

text \<open>
  A row of the table of apartments. The server's first schema has a column
  \<open>apartment_on_floor\<close>; the server's apartment routes and the worker's schema have none,
  and a row read without the column has the property \<open>undefined\<close>, here \<open>None\<close>.
\<close>

record Apartment =
  apartment_number :: int
  owner_name :: jsstring
  floor_number :: int
  apartment_on_floor :: "int option"
  override_amount :: "jsnum option"

section \<open>QR code service (services/qrCode.js)\<close>

record QRParams =
  bankAccount :: jsstring
  recipientName :: jsstring
  recipientAddress :: jsstring
  recipientCity :: jsstring
  amount :: jsnum
  referenceNumber :: jsstring
  paymentPurpose :: jsstring
  payerName :: jsstring
  payerAddress :: jsstring
  payerCity :: jsstring

text \<open>The payload of the NBS service; the field \<open>X\<close> of the source is \<open>qrX\<close>.\<close>

record QRCodeData =
  qrK :: jsstring
  qrV :: jsstring
  qrC :: jsstring
  qrR :: jsstring
  qrN :: jsstring
  qrI :: jsstring
  qrSF :: jsstring
  qrS :: jsstring
  qrRO :: jsstring
  qrP :: jsstring

record http_response =
  status :: nat
  body :: jsstring

text \<open>
  What the code takes from its host. \<open>network k d sz\<close> is the outcome of the \<open>k\<close>-th
  request of one document (counted from 0), a POST of the payload \<open>d\<close> to the endpoint of
  the given size: \<open>Inl msg\<close> when \<open>fetch\<close> or the reading of the body throws, the
  response otherwise. \<open>largeToString\<close> is \<open>Number::toString\<close> on the finite values from
  \<open>10^21\<close> on. \<open>imageDecodes\<close> says of which bytes PDFKit makes an image; on the others
  \<open>doc.image\<close> throws. The other fields say which font files exist.
\<close>

record host =
  largeToString :: "rat \<Rightarrow> jsstring"
  network :: "nat \<Rightarrow> QRCodeData \<Rightarrow> nat \<Rightarrow> jsstring + http_response"
  imageDecodes :: "jsstring \<Rightarrow> bool"
  fontRegularPath :: jsstring
  fontRegularExists :: bool
  fontBoldExists :: bool

definition DEFAULT_QR_SIZE :: nat where
  "DEFAULT_QR_SIZE = 200"

definition generateQRCodeData :: "host \<Rightarrow> QRParams \<Rightarrow> error + QRCodeData" where
  "generateQRCodeData h params =
     (case formatForQR (bankAccount params) of
        Inl e \<Rightarrow> Inl e
      | Inr formattedAccount \<Rightarrow>
          let recipientInfo = slice 0 70 (recipientName params @ [0x0D, 0x0A] @ recipientAddress params);
              formattedAmount = js ''RSD'' @
                replaceFirst 0x2E (js '','') (toFixed2 (largeToString h) (amount params));
              formattedReference = replaceFirst 0x2F [] (referenceNumber params);
              payerInfo = payerName params @ [0x0D, 0x0A] @ payerAddress params @
                          [0x0D, 0x0A] @ payerCity params
          in Inr \<lparr>qrK = js ''PR'', qrV = js ''01'', qrC = js ''1'',
                  qrR = formattedAccount, qrN = recipientInfo, qrI = formattedAmount,
                  qrSF = js ''289'', qrS = paymentPurpose params,
                  qrRO = formattedReference, qrP = payerInfo\<rparr>)"

definition formatReference_worker :: "jsstring \<Rightarrow> jsstring" where
  \<comment> \<open>the worker's qrCode.ts: \<open>referenceNumber.replace('/', '').replace('-', '')\<close>\<close>
  "formatReference_worker r = replaceFirst 0x2D [] (replaceFirst 0x2F [] r)"

definition fetchQRCode :: "host \<Rightarrow> QRCodeData \<Rightarrow> nat \<Rightarrow> nat \<Rightarrow> (error + jsstring) \<times> nat" where
  \<comment> \<open>the last argument counts the requests sent so far; the new count is returned\<close>
  "fetchQRCode h qrData sz k =
     (case network h k qrData sz of
        Inl msg \<Rightarrow> (Inl (Error (js ''Failed to generate QR code: '' @ msg)), Suc k)
      | Inr response \<Rightarrow>
          if 200 \<le> status response \<and> status response \<le> 299 then (Inr (body response), Suc k)
          else (Inl (Error (js ''Failed to generate QR code: '' @ js ''NBS API error: '' @
                  decimal (status response) @ js '' - '' @ body response)), Suc k))"

definition amountOf :: "Apartment \<Rightarrow> Building \<Rightarrow> jsnum" where
  \<comment> \<open>\<open>apartment.override_amount || building.default_amount\<close>\<close>
  "amountOf apartment building =
     (case override_amount apartment of
        None \<Rightarrow> default_amount building
      | Some a \<Rightarrow> if truthy a then a else default_amount building)"

definition paymentQRData :: "host \<Rightarrow> Apartment \<Rightarrow> Building \<Rightarrow> int \<Rightarrow> error + QRCodeData" where
  \<comment> \<open>the constant \<open>qrData\<close> of \<open>generatePaymentQRCode\<close>\<close>
  "paymentQRData h apartment building month =
     (let amt = amountOf apartment building;
          apartmentNum = padStart 2 0x30 (intToString (apartment_number apartment));
          monthNum = padStart 2 0x30 (intToString month);
          refNo = apartmentNum @ js ''/'' @ monthNum
      in generateQRCodeData h
           \<lparr>bankAccount = bank_account building,
            recipientName = recipient_name building,
            recipientAddress = address building,
            recipientCity = city building,
            amount = amt,
            referenceNumber = refNo,
            paymentPurpose = payment_purpose building,
            payerName = owner_name apartment,
            payerAddress = address building @ js '', '' @ intToString (floor_number apartment) @
                           js '', '' @ intToString (apartment_number apartment),
            payerCity = city building\<rparr>)"

definition generatePaymentQRCode ::
  "host \<Rightarrow> Apartment \<Rightarrow> Building \<Rightarrow> int \<Rightarrow> int \<Rightarrow> nat \<Rightarrow> nat \<Rightarrow> (error + jsstring) \<times> nat" where
  "generatePaymentQRCode h apartment building month year sz k =
     (case paymentQRData h apartment building month of
        Inl e \<Rightarrow> (Inl e, k)
      | Inr qrData \<Rightarrow> fetchQRCode h qrData sz k)"

section \<open>Payment slip generator (services/pdfGenerator.js)\<close>

text \<open>The Cyrillic texts of the source, as UTF-16 code units.\<close>

definition LABELS_title :: jsstring where
  "LABELS_title =
    [0x41D, 0x410, 0x41B, 0x41E, 0x413, 0x20, 0x417, 0x410, 0x20, 0x423, 0x41F, 0x41B, 0x410,
     0x422, 0x423]"

definition LABELS_payer :: jsstring where
  "LABELS_payer = [0x443, 0x43F, 0x43B, 0x430, 0x442, 0x438, 0x43B, 0x430, 0x446]"

definition LABELS_purpose :: jsstring where
  "LABELS_purpose =
    [0x441, 0x432, 0x440, 0x445, 0x430, 0x20, 0x443, 0x43F, 0x43B, 0x430, 0x442, 0x435]"

definition LABELS_recipient :: jsstring where
  "LABELS_recipient = [0x43F, 0x440, 0x438, 0x43C, 0x430, 0x43B, 0x430, 0x446]"

definition LABELS_paymentCode :: jsstring where
  "LABELS_paymentCode =
    [0x448, 0x438, 0x444, 0x440, 0x430, 0x20, 0x43F, 0x43B, 0x430, 0x45B, 0x430, 0x45A, 0x430]"

definition LABELS_currency :: jsstring where
  "LABELS_currency = [0x432, 0x430, 0x43B, 0x443, 0x442, 0x430]"

definition LABELS_amount :: jsstring where
  "LABELS_amount = [0x438, 0x437, 0x43D, 0x43E, 0x441]"

definition LABELS_recipientAccount :: jsstring where
  "LABELS_recipientAccount =
    [0x440, 0x430, 0x447, 0x443, 0x43D, 0x20, 0x43F, 0x440, 0x438, 0x43C, 0x430, 0x43E, 0x446,
     0x430]"

definition LABELS_model :: jsstring where
  "LABELS_model = [0x431, 0x440, 0x43E, 0x458, 0x20, 0x43C, 0x43E, 0x434, 0x435, 0x43B, 0x430]"

definition LABELS_reference :: jsstring where
  "LABELS_reference =
    [0x43F, 0x43E, 0x437, 0x438, 0x432, 0x20, 0x43D, 0x430, 0x20, 0x431, 0x440, 0x43E, 0x458,
     0x20, 0x28, 0x43E, 0x434, 0x43E, 0x431, 0x440, 0x435, 0x45A, 0x435, 0x29]"

definition LABELS_payerSignature :: jsstring where
  "LABELS_payerSignature =
    [0x43F, 0x435, 0x447, 0x430, 0x442, 0x20, 0x438, 0x20, 0x43F, 0x43E, 0x442, 0x43F, 0x438,
     0x441, 0x20, 0x443, 0x43F, 0x43B, 0x430, 0x442, 0x438, 0x43E, 0x446, 0x430]"

definition LABELS_datePlace :: jsstring where
  "LABELS_datePlace =
    [0x43C, 0x435, 0x441, 0x442, 0x43E, 0x20, 0x438, 0x20, 0x434, 0x430, 0x442, 0x443, 0x43C,
     0x20, 0x43F, 0x440, 0x438, 0x458, 0x435, 0x43C, 0x430]"

definition LABELS_valueDate :: jsstring where
  "LABELS_valueDate =
    [0x434, 0x430, 0x442, 0x443, 0x43C, 0x20, 0x432, 0x430, 0x43B, 0x443, 0x442, 0x435]"

definition PAYMENT_PURPOSE :: jsstring where
  "PAYMENT_PURPOSE =
    [0x41C, 0x435, 0x441, 0x435, 0x447, 0x43D, 0x43E, 0x20, 0x43E, 0x434, 0x440, 0x436, 0x430,
     0x432, 0x430, 0x45A, 0x435, 0x20, 0x437, 0x433, 0x440, 0x430, 0x434, 0x435]"

definition RECIPIENT_PREFIX :: jsstring where
  "RECIPIENT_PREFIX =
    [0x421, 0x442, 0x430, 0x43C, 0x431, 0x435, 0x43D, 0x430, 0x20, 0x437, 0x430, 0x458, 0x435,
     0x434, 0x43D, 0x438, 0x446, 0x430]"

definition sprat :: jsstring where
  \<comment> \<open>the literal between address and floor in the payer line: comma, space, the Cyrillic
      word for floor, space\<close>
  "sprat = [0x2C, 0x20, 0x441, 0x43F, 0x440, 0x430, 0x442, 0x20]"

definition stan :: jsstring where
  \<comment> \<open>the literal between floor and apartment: comma, space, the Cyrillic word for
      apartment, space\<close>
  "stan = [0x2C, 0x20, 0x441, 0x442, 0x430, 0x43D, 0x20]"

definition optIntToString :: "int option \<Rightarrow> jsstring" where
  \<comment> \<open>a property that is an integer or \<open>undefined\<close>, inside a template literal\<close>
  "optIntToString v = (case v of None \<Rightarrow> js ''undefined'' | Some i \<Rightarrow> intToString i)"

definition generatePayerInfo :: "Apartment \<Rightarrow> Building \<Rightarrow> jsstring list" where
  "generatePayerInfo apartment building =
     (let line1 = owner_name apartment;
          line2 = address building @ sprat @ intToString (floor_number apartment) @ stan @
                  optIntToString (apartment_on_floor apartment);
          line3 = city building
      in [line1, line2, line3])"

definition generatePayerInfo_worker :: "Apartment \<Rightarrow> Building \<Rightarrow> jsstring list" where
  \<comment> \<open>the worker's pdfGenerator.ts, whose apartments have no \<open>apartment_on_floor\<close>\<close>
  "generatePayerInfo_worker apartment building =
     (let line1 = owner_name apartment;
          line2 = address building @ sprat @ intToString (floor_number apartment) @ stan @
                  intToString (apartment_number apartment);
          line3 = city building
      in [line1, line2, line3])"

definition generateRecipientInfo :: "Building \<Rightarrow> jsstring" where
  "generateRecipientInfo building =
     RECIPIENT_PREFIX @ js '' '' @ address building @ js '', '' @ city building"

definition generateReferenceNumber :: "int \<Rightarrow> int \<Rightarrow> jsstring" where
  "generateReferenceNumber apartmentNumber month =
     (let apt = padStart 2 0x30 (intToString apartmentNumber);
          mon = padStart 2 0x30 (intToString month)
      in apt @ js ''/'' @ mon)"

definition generateReferenceNumber_worker :: "int \<Rightarrow> int \<Rightarrow> jsstring" where
  \<comment> \<open>the worker's pdfGenerator.ts joins the two segments with a dash\<close>
  "generateReferenceNumber_worker apartmentNumber month =
     (let apt = padStart 2 0x30 (intToString apartmentNumber);
          mon = padStart 2 0x30 (intToString month)
      in apt @ js ''-'' @ mon)"

definition generatePDFFilename :: "int \<Rightarrow> int \<Rightarrow> jsstring" where
  "generatePDFFilename month year =
     (let monthStr = padStart 2 0x30 (intToString month)
      in js ''uplatnice_'' @ intToString year @ js ''_'' @ monthStr @ js ''.pdf'')"

text \<open>
  The PDFKit document. The geometry of a slip (coordinates, widths, colours, font sizes) is
  floating-point arithmetic on constants and is left out; what is kept of every drawing
  call is its kind and its content, in the order of the calls. The calls of one
  \<open>drawPaymentSlip\<close> are kept together with the slip index they were offset by
  (\<open>yOffset = slipIndex * SLIP_HEIGHT\<close>) and the page that was current.
  \<open>amount.toLocaleString('sr-RS', ...)\<close> is kept as the number it formats, and an image as
  the bytes the service returned, which are drawn only when PDFKit decodes them. The lines
  written to the console are not part of the model.
\<close>

datatype font = Serbian | SerbianBold

datatype draw_op =
    Rect
  | Line
  | DashedLine
  | Text font jsstring
  | AmountText jsnum
  | Image jsstring

record slip_drawing =
  onPage :: nat
  slot :: nat
  ops :: "draw_op list"

record pdf =
  pageCount :: nat
  fonts :: "font list"
  slips :: "slip_drawing list"

definition QR_GENERATE_SIZE :: nat where
  "QR_GENERATE_SIZE = 130"

definition newDocument :: pdf where
  \<comment> \<open>\<open>new PDFDocument({...})\<close>: PDFKit opens the first page by itself\<close>
  "newDocument = \<lparr>pageCount = 1, fonts = [], slips = []\<rparr>"

definition registerFont :: "font \<Rightarrow> pdf \<Rightarrow> pdf" where
  "registerFont f doc = doc\<lparr>fonts := fonts doc @ [f]\<rparr>"

definition addPage :: "pdf \<Rightarrow> pdf" where
  "addPage doc = doc\<lparr>pageCount := pageCount doc + 1\<rparr>"

definition slipOps ::
  "Apartment \<Rightarrow> Building \<Rightarrow> int \<Rightarrow> nat \<Rightarrow> jsstring option \<Rightarrow> jsstring \<Rightarrow> draw_op list" where
  \<comment> \<open>the drawing calls of a \<open>drawPaymentSlip\<close> that does not throw, in their order, given
      the display form of the bank account; the image is one that PDFKit has decoded\<close>
  "slipOps apartment building month slipIndex qrCodeBuffer accountText =
     [Rect, Line,
      Text Serbian LABELS_payer, Rect] @
     map (Text Serbian) (generatePayerInfo apartment building) @
     [Text Serbian LABELS_purpose, Rect, Text Serbian PAYMENT_PURPOSE,
      Text Serbian LABELS_recipient, Rect, Text Serbian (generateRecipientInfo building),
      Line, Text Serbian LABELS_payerSignature,
      Line, Text Serbian LABELS_datePlace,
      Text SerbianBold LABELS_title,
      Text Serbian LABELS_paymentCode, Text Serbian LABELS_currency, Text Serbian LABELS_amount,
      Rect,
      Rect, Text Serbian (js ''RSD''),
      Rect, AmountText (amountOf apartment building),
      Text Serbian LABELS_recipientAccount, Rect, Text Serbian accountText,
      Text Serbian LABELS_model, Text Serbian LABELS_reference, Rect, Rect,
      Text Serbian (generateReferenceNumber (apartment_number apartment) month)] @
     (case qrCodeBuffer of None \<Rightarrow> [] | Some img \<Rightarrow> [Image img]) @
     [Line, Text Serbian LABELS_valueDate] @
     (if slipIndex < 2 then [DashedLine] else [])"

definition drawPaymentSlip ::
  "host \<Rightarrow> pdf \<Rightarrow> Apartment \<Rightarrow> Building \<Rightarrow> int \<Rightarrow> int \<Rightarrow> nat \<Rightarrow> jsstring option \<Rightarrow>
   error + pdf" where
  \<comment> \<open>Four calls can throw, in this order: \<open>doc.font("Serbian")\<close> for the first label and
      \<open>doc.font("Serbian-Bold")\<close> for the title, when no font of that name is registered
      (PDFKit then opens a file of that name); \<open>formatForDisplay\<close>; and \<open>doc.image\<close> on
      bytes that are no image (the message is the one for bytes with neither the JPEG nor
      the PNG signature). The calls before them have drawn by then, but the document is
      not returned.\<close>
  "drawPaymentSlip h doc apartment building month year slipIndex qrCodeBuffer =
     (if Serbian \<notin> set (fonts doc) then
        Inl (Error (js ''ENOENT: no such file or directory, open '' @ [0x27] @ js ''Serbian'' @ [0x27]))
      else if SerbianBold \<notin> set (fonts doc) then
        Inl (Error (js ''ENOENT: no such file or directory, open '' @ [0x27] @ js ''Serbian-Bold'' @
                    [0x27]))
      else
        case formatForDisplay (bank_account building) of
          Inl e \<Rightarrow> Inl e
        | Inr accountText \<Rightarrow>
            if (case qrCodeBuffer of None \<Rightarrow> False | Some img \<Rightarrow> \<not> imageDecodes h img) then
              Inl (Error (js ''Unknown image format.''))
            else
              Inr (doc\<lparr>slips := slips doc @
                     [\<lparr>onPage = pageCount doc - 1, slot = slipIndex,
                       ops = slipOps apartment building month slipIndex qrCodeBuffer accountText\<rparr>]\<rparr>))"

fun qrCodesFor ::
  "host \<Rightarrow> Building \<Rightarrow> int \<Rightarrow> int \<Rightarrow> Apartment list \<Rightarrow> nat \<Rightarrow> jsstring option list \<times> nat" where
  \<comment> \<open>\<open>Promise.all(sortedApartments.map(async (apt) => { try ... catch ... return null }))\<close>:
      the requests leave in the order of the list, every result stays at its index, and
      an error of one apartment becomes \<open>null\<close> there\<close>
  "qrCodesFor h building month year [] k = ([], k)"
| "qrCodesFor h building month year (apt # rest) k =
     (case generatePaymentQRCode h apt building month year QR_GENERATE_SIZE k of
        (r, k') \<Rightarrow>
          (case qrCodesFor h building month year rest k' of
             (rs, k'') \<Rightarrow> ((case r of Inl err \<Rightarrow> None | Inr img \<Rightarrow> Some img) # rs, k'')))"

definition at_index :: "'a option list \<Rightarrow> nat \<Rightarrow> 'a option" where
  \<comment> \<open>\<open>qrCodes[i]\<close>: beyond the end it is \<open>undefined\<close>, which is falsy like \<open>null\<close>\<close>
  "at_index xs i = (if i < length xs then xs ! i else None)"

function drawSlips ::
  "host \<Rightarrow> Apartment list \<Rightarrow> Building \<Rightarrow> int \<Rightarrow> int \<Rightarrow> jsstring option list \<Rightarrow> nat \<Rightarrow> pdf \<Rightarrow>
   error + pdf" where
  \<comment> \<open>the loop \<open>for (let i = 0; i < sortedApartments.length; i++)\<close>, from \<open>i\<close> on\<close>
  "drawSlips h sortedApartments building month year qrCodes i doc =
     (if i < length sortedApartments then
        let slipIndex = i mod 3;
            doc1 = (if 0 < i \<and> slipIndex = 0 then addPage doc else doc)
        in case drawPaymentSlip h doc1 (sortedApartments ! i) building month year slipIndex
                  (at_index qrCodes i) of
             Inl e \<Rightarrow> Inl e
           | Inr doc2 \<Rightarrow> drawSlips h sortedApartments building month year qrCodes (i + 1) doc2
      else Inr doc)"
  by pat_completeness auto

termination
  by (relation "measure (\<lambda>(h, sortedApartments, building, month, year, qrCodes, i, doc).
        length sortedApartments - i)") auto

declare drawSlips.simps [simp del]

definition generatePaymentSlipsPDF ::
  "host \<Rightarrow> Apartment list \<Rightarrow> Building \<Rightarrow> int \<Rightarrow> int \<Rightarrow> error + pdf" where
  \<comment> \<open>the promise: \<open>Inr\<close> the document it resolves with, \<open>Inl\<close> the error it rejects with.
      The sort is stable, as \<open>Array.prototype.sort\<close> is.\<close>
  "generatePaymentSlipsPDF h apartments building month year =
     (if \<not> fontRegularExists h then
        Inl (Error (js ''Font file not found at '' @ fontRegularPath h @ js ''. '' @
                    js ''Please ensure NotoSans-Regular.ttf is in backend/fonts/ directory.''))
      else
        let doc = registerFont Serbian newDocument;
            doc' = (if fontBoldExists h then registerFont SerbianBold doc else doc);
            sortedApartments = sort_key apartment_number apartments;
            qrCodes = fst (qrCodesFor h building month year sortedApartments 0)
        in drawSlips h sortedApartments building month year qrCodes 0 doc')"

section \<open>Billing routes (routes/billings.js)\<close>

datatype response = Json nat jsstring | PdfDownload pdf jsstring

definition pdfRoute ::
  "host \<Rightarrow> int \<Rightarrow> int \<Rightarrow> Building option \<Rightarrow> Apartment list \<Rightarrow> response" where
  \<comment> \<open>the handler of \<open>GET /api/billings/pdf/:year/:month\<close>, after authentication and the
      validation of the two parameters; the building and the apartments are what the two
      queries return. \<open>Json status text\<close> is \<open>res.status(status).json({ error: text })\<close>.\<close>
  "pdfRoute h year month building apartments =
     (case building of
        None \<Rightarrow> Json 400 (js ''Podaci o zgradi nisu konfigurisani'')
      | Some b \<Rightarrow>
          if length apartments = 0 then Json 400 (js ''Nema registrovanih stanova'')
          else
            case generatePaymentSlipsPDF h apartments b month year of
              Inl err \<Rightarrow> Json 500 (js ''Greska prilikom generisanja PDF-a'')
            | Inr pdfBuffer \<Rightarrow> PdfDownload pdfBuffer (generatePDFFilename month year))"

section \<open>The scenario of the specification\<close>

text \<open>
  The building and the apartment of the specification's scenario, the apartment being a row
  as the server's routes store it, and a host whose service answers every request with an
  image. They are the concrete inputs of the examples below.
\<close>

definition onePixelPNG :: jsstring where
  \<comment> \<open>the bytes of a PNG file of one black pixel: signature, IHDR, IDAT, IEND\<close>
  "onePixelPNG =
    [0x89, 0x50, 0x4E, 0x47, 0x0D, 0x0A, 0x1A, 0x0A, 0x00, 0x00, 0x00, 0x0D, 0x49, 0x48, 0x44,
     0x52, 0x00, 0x00, 0x00, 0x01, 0x00, 0x00, 0x00, 0x01, 0x08, 0x02, 0x00, 0x00, 0x00, 0x90,
     0x77, 0x53, 0xDE, 0x00, 0x00, 0x00, 0x0C, 0x49, 0x44, 0x41, 0x54, 0x78, 0x9C, 0x63, 0x60,
     0x60, 0x60, 0x00, 0x00, 0x00, 0x04, 0x00, 0x01, 0xF6, 0x17, 0x38, 0x55, 0x00, 0x00, 0x00,
     0x00, 0x49, 0x45, 0x4E, 0x44, 0xAE, 0x42, 0x60, 0x82]"

definition significantDigits :: "jsstring \<Rightarrow> jsstring" where
  \<comment> \<open>a digit string without its zeros at the end\<close>
  "significantDigits ds = rev (dropWhile (\<lambda>c. c = 0x30) (rev ds))"

definition exactExponential :: "rat \<Rightarrow> jsstring" where
  \<comment> \<open>the integer part in the exponential notation of \<open>Number::toString\<close>, with all its
      significant digits: what \<open>Number::toString\<close> prints for a double from \<open>10^21\<close> on
      whose decimal expansion has at most 15 significant digits, such as \<open>10^21\<close> and
      \<open>1.5 * 10^21\<close>\<close>
  "exactExponential q =
     (let ds = decimal (nat \<lfloor>q\<rfloor>);
          sig = significantDigits ds
      in take 1 sig @ (if length sig \<le> 1 then [] else js ''.'' @ drop 1 sig) @ js ''e+'' @
         decimal (length ds - 1))"

definition scenario_building :: Building where
  "scenario_building =
     \<lparr>address = js ''Marka '' @ [0x10C] @ js ''elebonovi'' @ [0x107] @ js ''a 73'',
      city = js ''Beograd'',
      bank_account = js ''16054891267'',
      default_amount = Fin 3500,
      recipient_name = js ''Stambena zajednica'',
      payment_purpose = js ''Mesecno odrzavanje zgrade''\<rparr>"

definition scenario_apartment :: Apartment where
  "scenario_apartment =
     \<lparr>apartment_number = 5,
      owner_name = js ''Petar Petrovi'' @ [0x107],
      floor_number = 2,
      apartment_on_floor = None,
      override_amount = None\<rparr>"

definition scenario_host :: host where
  \<comment> \<open>every request is answered with the one-pixel PNG, which PDFKit decodes; the
      scenario draws no other bytes and takes them as not decoded; both fonts are there\<close>
  "scenario_host =
     \<lparr>largeToString = exactExponential,
      network = (\<lambda>k d sz. Inr \<lparr>status = 200, body = onePixelPNG\<rparr>),
      imageDecodes = (\<lambda>img. img = onePixelPNG),
      fontRegularPath = js ''/app/backend/fonts/NotoSans-Regular.ttf'',
      fontRegularExists = True,
      fontBoldExists = True\<rparr>"

definition scenario_params :: "jsnum \<Rightarrow> jsstring \<Rightarrow> QRParams" where
  \<comment> \<open>the parameters \<open>generatePaymentQRCode\<close> passes in the scenario, with the amount and
      the reference number left open\<close>
  "scenario_params amt refNo =
     \<lparr>bankAccount = js ''16054891267'',
      recipientName = js ''Stambena zajednica'',
      recipientAddress = address scenario_building,
      recipientCity = js ''Beograd'',
      amount = amt,
      referenceNumber = refNo,
      paymentPurpose = js ''Mesecno odrzavanje zgrade'',
      payerName = owner_name scenario_apartment,
      payerAddress = address scenario_building @ js '', 2, 5'',
      payerCity = js ''Beograd''\<rparr>"

definition scenario_apartments :: "Apartment list" where
  \<comment> \<open>four apartments of the building, not in the order of their numbers\<close>
  "scenario_apartments =
     [scenario_apartment\<lparr>apartment_number := 7\<rparr>, scenario_apartment,
      scenario_apartment\<lparr>apartment_number := 2\<rparr>, scenario_apartment\<lparr>apartment_number := 9\<rparr>]"

definition flaky_host :: "nat \<Rightarrow> host" where
  \<comment> \<open>the host of the scenario, except that the request of index \<open>j\<close> fails in transport\<close>
  "flaky_host j =
     scenario_host\<lparr>network := (\<lambda>k d sz. if k = j then Inl (js ''socket hang up'')
                                  else Inr \<lparr>status = 200, body = onePixelPNG\<rparr>)\<rparr>"

section \<open>What the specification expects\<close>

definition spec_amountField :: "jsstring \<Rightarrow> bool" where
  \<comment> \<open>the amount field as the specification words it: \<open>RSD\<close>, one digit or more, a comma,
      exactly two digits\<close>
  "spec_amountField s \<longleftrightarrow>
     (let k = length s
      in 7 \<le> k \<and> take 3 s = js ''RSD'' \<and> allDigits (take (k - 6) (drop 3 s)) \<and>
         s ! (k - 3) = 0x2C \<and> isDigit (s ! (k - 2)) \<and> isDigit (s ! (k - 1)))"

definition fetchFails :: "host \<Rightarrow> nat \<Rightarrow> QRCodeData \<Rightarrow> bool" where
  \<comment> \<open>the \<open>k\<close>-th request, with payload \<open>d\<close>, makes \<open>fetchQRCode\<close> throw: the transport
      fails or the status is not a success\<close>
  "fetchFails h k d =
     (case network h k d QR_GENERATE_SIZE of
        Inl msg \<Rightarrow> True
      | Inr response \<Rightarrow> \<not> (200 \<le> status response \<and> status response \<le> 299))"

definition isImage :: "draw_op \<Rightarrow> bool" where
  "isImage op = (case op of Image img \<Rightarrow> True | _ \<Rightarrow> False)"

definition hasImage :: "slip_drawing \<Rightarrow> bool" where
  "hasImage s = list_ex isImage (ops s)"

definition hasCutLine :: "slip_drawing \<Rightarrow> bool" where
  "hasCutLine s \<longleftrightarrow> DashedLine \<in> set (ops s)"

definition pagesAfter :: "nat \<Rightarrow> nat" where
  \<comment> \<open>the pages of the document once \<open>i\<close> slips are drawn\<close>
  "pagesAfter i = max 1 ((i + 2) div 3)"

definition slipDrawnAt ::
  "Apartment list \<Rightarrow> Building \<Rightarrow> int \<Rightarrow> jsstring option list \<Rightarrow> jsstring \<Rightarrow> nat \<Rightarrow> slip_drawing" where
  \<comment> \<open>the slip of the \<open>i\<close>-th sorted apartment: on page \<open>i div 3\<close>, in slot \<open>i mod 3\<close>\<close>
  "slipDrawnAt sortedApartments building month qrCodes accountText i =
     \<lparr>onPage = i div 3, slot = i mod 3,
      ops = slipOps (sortedApartments ! i) building month (i mod 3) (at_index qrCodes i) accountText\<rparr>"

definition lastOnPage :: "slip_drawing list \<Rightarrow> nat \<Rightarrow> bool" where
  \<comment> \<open>the slip of index \<open>i\<close> is the last one drawn on its page\<close>
  "lastOnPage ss i \<longleftrightarrow>
     Suc i = length ss \<or> (Suc i < length ss \<and> onPage (ss ! Suc i) \<noteq> onPage (ss ! i))"

definition spec_noCutLineAfterLastSlot :: "pdf \<Rightarrow> bool" where
  \<comment> \<open>the specification's reading of the cut lines: none below the last slip of a page\<close>
  "spec_noCutLineAfterLastSlot doc \<longleftrightarrow>
     list_all (\<lambda>i. lastOnPage (slips doc) i \<longrightarrow> \<not> hasCutLine (slips doc ! i))
       [0..<length (slips doc)]"

definition fullDocument :: pdf where
  \<comment> \<open>the document as \<open>generatePaymentSlipsPDF\<close> has it before the first slip when both
      fonts exist\<close>
  "fullDocument = registerFont SerbianBold (registerFont Serbian newDocument)"

definition allDecode :: "host \<Rightarrow> jsstring option list \<Rightarrow> bool" where
  \<comment> \<open>every image of the list is one that PDFKit decodes\<close>
  "allDecode h qrCodes =
     list_all (\<lambda>q. case q of None \<Rightarrow> True | Some img \<Rightarrow> imageDecodes h img) qrCodes"

definition rankIn :: "Apartment list \<Rightarrow> Apartment \<Rightarrow> nat" where
  \<comment> \<open>how many apartments of the list have a smaller number: \<open>i\<close> for the apartment with
      the \<open>i\<close>-th smallest number (from 0) of a list with different numbers\<close>
  "rankIn apartments a =
     length (filter (\<lambda>a'. apartment_number a' < apartment_number a) apartments)"

definition spec_payerLine :: "Apartment \<Rightarrow> Building \<Rightarrow> jsstring" where
  \<comment> \<open>the second payer line as the specification words it: address, floor, apartment
      number\<close>
  "spec_payerLine apartment building =
     address building @ sprat @ intToString (floor_number apartment) @ stan @
     intToString (apartment_number apartment)"

section \<open>Properties of the bank account service\<close>

lemma replicate_numeral: "replicate (numeral k) x = x # replicate (pred_numeral k) x"
  by (simp add: numeral_eq_Suc)

lemma slice_take: "0 \<le> b \<Longrightarrow> slice 0 b s = take (nat b) s"
  by (simp add: slice_def Let_def min_def)

lemma slice_mid:
  "0 \<le> a \<Longrightarrow> a \<le> b \<Longrightarrow> b \<le> int (length s) \<Longrightarrow> slice a b s = take (nat (b - a)) (drop (nat a) s)"
  by (simp add: slice_def Let_def min_def)

lemma slice_to_neg:
  "0 \<le> a \<Longrightarrow> a \<le> int (length s) - k \<Longrightarrow> 0 < k \<Longrightarrow>
   slice a (- k) s = take (nat (int (length s) - k - a)) (drop (nat a) s)"
  by (simp add: slice_def Let_def min_def max_def)

lemma sliceFrom_neg:
  "0 < k \<Longrightarrow> k \<le> int (length s) \<Longrightarrow> sliceFrom (- k) s = drop (length s - nat k) s"
  by (simp add: sliceFrom_def slice_def Let_def min_def max_def nat_diff_distrib')

lemma stripSeparators_digits: "list_all isDigit s \<Longrightarrow> stripSeparators s = s"
  by (induction s) (auto simp: stripSeparators_def isDashOrSpace_def isWhiteSpace_def isDigit_def)

lemma parse_full:
  assumes "allDigits (stripSeparators input)" "length (stripSeparators input) = 18"
  shows "parseBankAccount input =
     Inr \<lparr>bank = take 3 (stripSeparators input),
          account = take 13 (drop 3 (stripSeparators input)),
          control = drop 16 (stripSeparators input),
          formatted = take 3 (stripSeparators input) @ js ''-'' @
                      take 13 (drop 3 (stripSeparators input)) @ js ''-'' @
                      drop 16 (stripSeparators input),
          digits = stripSeparators input\<rparr>"
proof -
  have ne: "input \<noteq> []"
    using assms(2) by (auto simp: stripSeparators_def)
  show ?thesis
    using assms ne by (simp add: parseBankAccount_def Let_def slice_take slice_mid)
qed

lemma parse_short:
  assumes "allDigits (stripSeparators input)"
    "7 \<le> length (stripSeparators input)" "length (stripSeparators input) \<le> 17"
  shows "parseBankAccount input =
     Inr \<lparr>bank = take 3 (stripSeparators input),
          account = replicate (18 - length (stripSeparators input)) 0x30 @
                    take (length (stripSeparators input) - 5) (drop 3 (stripSeparators input)),
          control = drop (length (stripSeparators input) - 2) (stripSeparators input),
          formatted = take 3 (stripSeparators input) @ js ''-'' @
                      (replicate (18 - length (stripSeparators input)) 0x30 @
                       take (length (stripSeparators input) - 5) (drop 3 (stripSeparators input))) @
                      js ''-'' @
                      drop (length (stripSeparators input) - 2) (stripSeparators input),
          digits = take 3 (stripSeparators input) @
                   (replicate (18 - length (stripSeparators input)) 0x30 @
                    take (length (stripSeparators input) - 5) (drop 3 (stripSeparators input))) @
                   drop (length (stripSeparators input) - 2) (stripSeparators input)\<rparr>"
proof -
  define ds where "ds = stripSeparators input"
  have ne: "input \<noteq> []"
    using assms(2) by (auto simp: stripSeparators_def)
  have len: "7 \<le> length ds" "length ds \<le> 17"
    using assms by (simp_all add: ds_def)
  have s1: "slice 0 3 ds = take 3 ds"
    by (simp add: slice_take)
  have s2: "sliceFrom (- 2) ds = drop (length ds - 2) ds"
    using len sliceFrom_neg [of 2 ds] by simp
  have s3: "slice 3 (- 2) ds = take (length ds - 5) (drop 3 ds)"
  proof -
    have "nat (int (length ds) - 2 - 3) = length ds - 5"
      using len by simp
    then show ?thesis
      using len slice_to_neg [of 3 ds 2] by simp
  qed
  have s4: "padStart 13 0x30 (take (length ds - 5) (drop 3 ds)) =
            replicate (18 - length ds) 0x30 @ take (length ds - 5) (drop 3 ds)"
  proof -
    have "13 - (length ds - 5) = 18 - length ds"
      using len by simp
    then show ?thesis
      using len by (simp add: padStart_def min_def)
  qed
  show ?thesis
    using assms ne len
    by (simp add: parseBankAccount_def Let_def s1 s2 s3 s4 flip: ds_def)
qed

lemma scenario_account_parsed:
  "parseBankAccount (js ''16054891267'') =
     Inr \<lparr>bank = js ''160'', account = js ''0000000548912'', control = js ''67'',
          formatted = js ''160-0000000548912-67'', digits = js ''160000000054891267''\<rparr>"
  by (simp add: parseBankAccount_def stripSeparators_def isDashOrSpace_def isWhiteSpace_def
      allDigits_def isDigit_def js_def slice_def sliceFrom_def padStart_def Let_def
      replicate_numeral)

text \<open>
  C1. Every accepted input is normalised to the canonical 18-digit decomposition. When the
  input without dashes and whitespace is 18 digits \<open>D\<close>, the \<open>digits\<close> serialisation is \<open>D\<close>
  itself (and an input of digits only is its own stripped form). When it is 7 to 17 digits,
  \<open>bank\<close> is the first 3 digits, \<open>control\<close> the last 2, \<open>account\<close> the middle digits with
  zeros on the left up to 13 characters, and \<open>digits\<close> has length 18. The input
  \<open>16054891267\<close> gives bank \<open>160\<close>, control \<open>67\<close>, account \<open>0000000548912\<close> and the
  display form \<open>160-0000000548912-67\<close>.
\<close>

theorem parseBankAccount_canonical:
  "(list_all isDigit D \<and> length D = 18 \<longrightarrow>
      (\<exists>r. parseBankAccount D = Inr r \<and> digits r = D))
   \<and> (allDigits (stripSeparators input) \<and> length (stripSeparators input) = 18 \<longrightarrow>
      (\<exists>r. parseBankAccount input = Inr r \<and> digits r = stripSeparators input))
   \<and> (allDigits (stripSeparators input) \<and> 7 \<le> length (stripSeparators input)
        \<and> length (stripSeparators input) \<le> 17 \<longrightarrow>
      (\<exists>r. parseBankAccount input = Inr r
         \<and> bank r = take 3 (stripSeparators input)
         \<and> control r = drop (length (stripSeparators input) - 2) (stripSeparators input)
         \<and> account r = replicate (18 - length (stripSeparators input)) 0x30 @
                        take (length (stripSeparators input) - 5) (drop 3 (stripSeparators input))
         \<and> length (account r) = 13
         \<and> list_all isDigit (account r)
         \<and> digits r = bank r @ account r @ control r
         \<and> length (digits r) = 18
         \<and> formatted r = bank r @ js ''-'' @ account r @ js ''-'' @ control r))
   \<and> parseBankAccount (js ''16054891267'') =
       Inr \<lparr>bank = js ''160'', account = js ''0000000548912'', control = js ''67'',
            formatted = js ''160-0000000548912-67'', digits = js ''160000000054891267''\<rparr>"
proof (intro conjI impI)
  assume a: "list_all isDigit D \<and> length D = 18"
  then have "stripSeparators D = D"
    by (simp add: stripSeparators_digits)
  moreover have "allDigits D"
    using a by (auto simp: allDigits_def)
  ultimately show "\<exists>r. parseBankAccount D = Inr r \<and> digits r = D"
    using a parse_full [of D] by simp
next
  assume "allDigits (stripSeparators input) \<and> length (stripSeparators input) = 18"
  then show "\<exists>r. parseBankAccount input = Inr r \<and> digits r = stripSeparators input"
    using parse_full [of input] by simp
next
  assume a: "allDigits (stripSeparators input) \<and> 7 \<le> length (stripSeparators input)
        \<and> length (stripSeparators input) \<le> 17"
  define ds where "ds = stripSeparators input"
  have len: "7 \<le> length ds" "length ds \<le> 17" and dig: "list_all isDigit ds"
    using a by (simp_all add: ds_def allDigits_def)
  have mid: "list_all isDigit (take (length ds - 5) (drop 3 ds))"
    using dig by (auto simp: list_all_iff dest: in_set_takeD in_set_dropD)
  have zeros: "list_all isDigit (replicate (18 - length ds) 0x30)"
    by (simp add: list_all_iff isDigit_def)
  have l13: "length (replicate (18 - length ds) (0x30::nat) @ take (length ds - 5) (drop 3 ds)) = 13"
    using len by (simp add: min_def)
  have l18: "length (take 3 ds @ (replicate (18 - length ds) (0x30::nat) @
               take (length ds - 5) (drop 3 ds)) @ drop (length ds - 2) ds) = 18"
    using len by (simp add: min_def)
  show "\<exists>r. parseBankAccount input = Inr r
         \<and> bank r = take 3 (stripSeparators input)
         \<and> control r = drop (length (stripSeparators input) - 2) (stripSeparators input)
         \<and> account r = replicate (18 - length (stripSeparators input)) 0x30 @
                        take (length (stripSeparators input) - 5) (drop 3 (stripSeparators input))
         \<and> length (account r) = 13
         \<and> list_all isDigit (account r)
         \<and> digits r = bank r @ account r @ control r
         \<and> length (digits r) = 18
         \<and> formatted r = bank r @ js ''-'' @ account r @ js ''-'' @ control r"
    using parse_short [of input] a l13 l18 mid zeros
    unfolding ds_def by simp
next
  show "parseBankAccount (js ''16054891267'') =
       Inr \<lparr>bank = js ''160'', account = js ''0000000548912'', control = js ''67'',
            formatted = js ''160-0000000548912-67'', digits = js ''160000000054891267''\<rparr>"
    by (rule scenario_account_parsed)
qed

theorem parseBankAccount_canonical_witness:
  "(list_all isDigit (js ''160000000054891267'') \<and> length (js ''160000000054891267'') = 18)
   \<and> (\<exists>r. parseBankAccount (js ''160000000054891267'') = Inr r
          \<and> digits r = js ''160000000054891267'')
   \<and> (allDigits (stripSeparators (js ''160-548 912-67''))
        \<and> 7 \<le> length (stripSeparators (js ''160-548 912-67''))
        \<and> length (stripSeparators (js ''160-548 912-67'')) \<le> 17)
   \<and> (\<exists>r. parseBankAccount (js ''160-548 912-67'') = Inr r
          \<and> account r = js ''0000000548912'' \<and> length (digits r) = 18)"
proof -
  have s: "stripSeparators (js ''160-548 912-67'') = js ''16054891267''"
    by (simp add: stripSeparators_def isDashOrSpace_def isWhiteSpace_def js_def)
  have h1: "list_all isDigit (js ''160000000054891267'') \<and> length (js ''160000000054891267'') = 18"
    by (simp add: js_def isDigit_def)
  have h2: "allDigits (stripSeparators (js ''160-548 912-67''))
        \<and> 7 \<le> length (stripSeparators (js ''160-548 912-67''))
        \<and> length (stripSeparators (js ''160-548 912-67'')) \<le> 17"
    unfolding s by (simp add: js_def allDigits_def isDigit_def)
  have c1: "\<exists>r. parseBankAccount (js ''160000000054891267'') = Inr r
          \<and> digits r = js ''160000000054891267''"
    using parseBankAccount_canonical [of "js ''160000000054891267''"] h1 by blast
  obtain r where r: "parseBankAccount (js ''160-548 912-67'') = Inr r"
      "account r = replicate (18 - length (stripSeparators (js ''160-548 912-67''))) 0x30 @
         take (length (stripSeparators (js ''160-548 912-67'')) - 5)
           (drop 3 (stripSeparators (js ''160-548 912-67'')))"
      "length (digits r) = 18"
    using parseBankAccount_canonical [of _ "js ''160-548 912-67''"] h2 by blast
  have "account r = js ''0000000548912''"
    unfolding r(2) s by (simp add: js_def replicate_numeral)
  with r h1 h2 c1 show ?thesis by blast
qed

lemma parse_fails_iff:
  "isl (parseBankAccount input) \<longleftrightarrow>
     \<not> (allDigits (stripSeparators input) \<and> 7 \<le> length (stripSeparators input)
        \<and> length (stripSeparators input) \<le> 18)"
proof (cases "input = []")
  case True
  then show ?thesis
    by (simp add: parseBankAccount_def stripSeparators_def)
next
  case False
  then show ?thesis
    by (auto simp: parseBankAccount_def Let_def)
qed

text \<open>
  C7. \<open>parseBankAccount\<close> fails exactly for the empty input, for an input that keeps a
  character other than a digit once dashes and whitespace are removed, and for an input whose
  stripped form has 6 characters or fewer, or 19 or more. On every input on which it fails,
  \<open>isValidBankAccount\<close> is false; \<open>isValidBankAccount\<close> catches every error of the parser,
  so it has a boolean value on every input.
\<close>

theorem parseBankAccount_fails_exactly:
  "(isl (parseBankAccount input) \<longleftrightarrow>
      input = []
      \<or> (\<exists>c \<in> set (stripSeparators input). \<not> isDigit c)
      \<or> length (stripSeparators input) \<le> 6
      \<or> 19 \<le> length (stripSeparators input))
   \<and> (isl (parseBankAccount input) \<longrightarrow> isValidBankAccount input = False)
   \<and> (\<not> isl (parseBankAccount input) \<longrightarrow> isValidBankAccount input = True)"
proof (intro conjI impI)
  have "input = [] \<Longrightarrow> stripSeparators input = []"
    by (simp add: stripSeparators_def)
  then show "isl (parseBankAccount input) \<longleftrightarrow>
      input = []
      \<or> (\<exists>c \<in> set (stripSeparators input). \<not> isDigit c)
      \<or> length (stripSeparators input) \<le> 6
      \<or> 19 \<le> length (stripSeparators input)"
    unfolding parse_fails_iff allDigits_def list_all_iff by fastforce
next
  assume "isl (parseBankAccount input)"
  then show "isValidBankAccount input = False"
    by (cases "parseBankAccount input") (simp_all add: isValidBankAccount_def)
next
  assume "\<not> isl (parseBankAccount input)"
  then show "isValidBankAccount input = True"
    by (cases "parseBankAccount input") (simp_all add: isValidBankAccount_def)
qed

theorem parseBankAccount_fails_exactly_witness:
  "(\<exists>c \<in> set (stripSeparators (js ''160-54A91-67'')). \<not> isDigit c)
   \<and> isl (parseBankAccount (js ''160-54A91-67''))
   \<and> isValidBankAccount (js ''160-54A91-67'') = False
   \<and> length (stripSeparators (js ''12-345 6'')) \<le> 6
   \<and> isl (parseBankAccount (js ''12-345 6''))
   \<and> isValidBankAccount (js ''12-345 6'') = False
   \<and> \<not> isl (parseBankAccount (js ''16054891267''))
   \<and> isValidBankAccount (js ''16054891267'') = True"
proof -
  have h1: "\<exists>c \<in> set (stripSeparators (js ''160-54A91-67'')). \<not> isDigit c"
    by (simp add: stripSeparators_def isDashOrSpace_def isWhiteSpace_def js_def isDigit_def)
  have h2: "length (stripSeparators (js ''12-345 6'')) \<le> 6"
    by (simp add: stripSeparators_def isDashOrSpace_def isWhiteSpace_def js_def)
  have h3: "\<not> (js ''16054891267'' = []
      \<or> (\<exists>c \<in> set (stripSeparators (js ''16054891267'')). \<not> isDigit c)
      \<or> length (stripSeparators (js ''16054891267'')) \<le> 6
      \<or> 19 \<le> length (stripSeparators (js ''16054891267'')))"
    by (simp add: stripSeparators_def isDashOrSpace_def isWhiteSpace_def js_def isDigit_def)
  show ?thesis
    using h1 h2 h3
      parseBankAccount_fails_exactly [of "js ''160-54A91-67''"]
      parseBankAccount_fails_exactly [of "js ''12-345 6''"]
      parseBankAccount_fails_exactly [of "js ''16054891267''"]
    by blast
qed

section \<open>Properties of the QR code service\<close>

lemma scenario_account_valid: "isValidBankAccount (js ''16054891267'')"
  by (simp add: isValidBankAccount_def parseBankAccount_def stripSeparators_def isDashOrSpace_def
      isWhiteSpace_def allDigits_def isDigit_def js_def Let_def)

lemma decimal_small: "n < 10 \<Longrightarrow> decimal n = [0x30 + n]"
  by (subst decimal.simps) simp

lemma decimal_step: "10 \<le> n \<Longrightarrow> decimal n = decimal (n div 10) @ [0x30 + n mod 10]"
  by (subst decimal.simps) simp

lemma decimal_two: "10 \<le> n \<Longrightarrow> n < 100 \<Longrightarrow> decimal n = [0x30 + n div 10, 0x30 + n mod 10]"
  by (simp add: decimal_step decimal_small)

lemma div10_mod10: "(n::nat) div 10 mod 10 = n mod 100 div 10"
proof -
  have "n mod 100 = 10 * (n div 10 mod 10) + n mod 10"
    using mod_mult2_eq [of n 10 10] by simp
  then show ?thesis by simp
qed

lemma decimal_hundred:
  assumes "100 \<le> n"
  shows "decimal n = decimal (n div 100) @ [0x30 + n mod 100 div 10, 0x30 + n mod 10]"
proof -
  have a: "10 \<le> n" "10 \<le> n div 10"
    using assms by simp_all
  have b: "n div 10 div 10 = n div 100"
    by (simp add: div_mult2_eq)
  have "decimal n = decimal (n div 10) @ [0x30 + n mod 10]"
    by (rule decimal_step [OF a(1)])
  also have "decimal (n div 10) = decimal (n div 10 div 10) @ [0x30 + n div 10 mod 10]"
    by (rule decimal_step [OF a(2)])
  finally show ?thesis
    unfolding b div10_mod10 by simp
qed

lemma decimal_digits: "list_all isDigit (decimal n)"
proof (induction n rule: decimal.induct)
  case (1 n)
  show ?case
  proof (cases "n < 10")
    case True
    then show ?thesis by (simp add: decimal_small isDigit_def)
  next
    case False
    then have "list_all isDigit (decimal (n div 10))"
      using 1 by simp
    moreover have "isDigit (0x30 + n mod 10)"
      by (simp add: isDigit_def)
    ultimately show ?thesis
      using False by (simp add: decimal_step)
  qed
qed

lemma decimal_nonempty: "decimal n \<noteq> []"
  by (subst decimal.simps) simp

lemma decimal_length3:
  assumes "100 \<le> n"
  shows "3 \<le> length (decimal n)"
proof -
  have "1 \<le> length (decimal (n div 100))"
    using decimal_nonempty [of "n div 100"] by (cases "decimal (n div 100)") simp_all
  then show ?thesis
    unfolding decimal_hundred [OF assms] by simp
qed

lemma fixed_split:
  "take (length (padStart 3 0x30 (decimal n)) - 2) (padStart 3 0x30 (decimal n)) = decimal (n div 100)
   \<and> drop (length (padStart 3 0x30 (decimal n)) - 2) (padStart 3 0x30 (decimal n)) =
       [0x30 + n mod 100 div 10, 0x30 + n mod 10]"
proof -
  consider "n < 10" | "10 \<le> n" "n < 100" | "100 \<le> n" by linarith
  then show ?thesis
  proof cases
    case 1
    then show ?thesis
      by (simp add: decimal_small padStart_def replicate_numeral)
  next
    case 2
    then show ?thesis
      by (simp add: decimal_two decimal_small padStart_def replicate_numeral)
  next
    case 3
    then have "padStart 3 0x30 (decimal n) = decimal n"
      using decimal_length3 [of n] by (simp add: padStart_def)
    then show ?thesis
      unfolding decimal_hundred [OF 3] by simp
  qed
qed

lemma replaceFirst_at: "c \<notin> set xs \<Longrightarrow> replaceFirst c r (xs @ c # ys) = xs @ r @ ys"
  by (induction xs) auto

lemma replaceFirst_none: "c \<notin> set xs \<Longrightarrow> replaceFirst c r xs = xs"
  by (induction xs) auto

lemma digit_not: "list_all isDigit xs \<Longrightarrow> c < 0x30 \<Longrightarrow> c \<notin> set xs"
  by (auto simp: list_all_iff isDigit_def)

lemma toFixed2_finite:
  assumes "\<bar>q\<bar> < 10 ^ 21"
  shows "toFixed2 large (Fin q) =
     (if q < 0 then js ''-'' else []) @ decimal (nat \<lfloor>\<bar>q\<bar> * 100 + 1 / 2\<rfloor> div 100) @ js ''.'' @
       [0x30 + nat \<lfloor>\<bar>q\<bar> * 100 + 1 / 2\<rfloor> mod 100 div 10, 0x30 + nat \<lfloor>\<bar>q\<bar> * 100 + 1 / 2\<rfloor> mod 10]"
  using assms fixed_split [of "nat \<lfloor>\<bar>q\<bar> * 100 + 1 / 2\<rfloor>"]
  by (simp add: toFixed2_def Let_def)

lemma amount_replace:
  "replaceFirst 0x2E (js '','') ((if q < 0 then js ''-'' else []) @ decimal k @ js ''.'' @ [x, y]) =
   (if (q::rat) < 0 then js ''-'' else []) @ decimal k @ js '','' @ [x, y]"
proof -
  have "(0x2E::nat) \<notin> set ((if q < 0 then js ''-'' else []) @ decimal k)"
    using digit_not [OF decimal_digits, of "0x2E" k] by (simp add: js_def)
  then show ?thesis
    using replaceFirst_at [of "0x2E" "(if q < 0 then js ''-'' else []) @ decimal k" "js '',''" "[x, y]"]
    by (simp add: js_def)
qed

lemma pad2:
  assumes "1 \<le> a" "a \<le> 99"
  shows "padStart 2 0x30 (intToString a) = [0x30 + nat a div 10, 0x30 + nat a mod 10]"
proof (cases "a < 10")
  case True
  then have "nat a < 10" "nat a div 10 = 0" using assms by simp_all
  then show ?thesis
    using assms by (simp add: intToString_def decimal_small padStart_def)
next
  case False
  then have "10 \<le> nat a" "nat a < 100" using assms by simp_all
  then show ?thesis
    using assms by (simp add: intToString_def decimal_two padStart_def)
qed

lemma generateQRCodeData_valid:
  assumes "isValidBankAccount (bankAccount params)"
  shows "\<exists>acc. formatForQR (bankAccount params) = Inr acc \<and>
     generateQRCodeData h params =
       Inr \<lparr>qrK = js ''PR'', qrV = js ''01'', qrC = js ''1'', qrR = acc,
            qrN = slice 0 70 (recipientName params @ [0x0D, 0x0A] @ recipientAddress params),
            qrI = js ''RSD'' @ replaceFirst 0x2E (js '','') (toFixed2 (largeToString h) (amount params)),
            qrSF = js ''289'', qrS = paymentPurpose params,
            qrRO = replaceFirst 0x2F [] (referenceNumber params),
            qrP = payerName params @ [0x0D, 0x0A] @ payerAddress params @ [0x0D, 0x0A] @
                  payerCity params\<rparr>"
  using assms
  by (cases "parseBankAccount (bankAccount params)")
     (simp_all add: isValidBankAccount_def generateQRCodeData_def formatForQR_def Let_def)

lemma spec_amountField_digits:
  assumes "isDigit x" "isDigit y"
  shows "spec_amountField (js ''RSD'' @ decimal k @ js '','' @ [x, y])"
proof -
  have "allDigits (decimal k)"
    using decimal_digits decimal_nonempty by (simp add: allDigits_def)
  moreover have "1 \<le> length (decimal k)"
    using decimal_nonempty [of k] by (cases "decimal k") simp_all
  ultimately show ?thesis
    using assms by (simp add: spec_amountField_def js_def nth_append Let_def)
qed

lemma round_half_up:
  fixes a :: rat
  assumes "0 \<le> a"
  shows "\<bar>of_nat (nat \<lfloor>a * 100 + 1 / 2\<rfloor>) / 100 - a\<bar> \<le> 1 / 200"
proof -
  define z where "z = \<lfloor>a * 100 + 1 / 2\<rfloor>"
  have z0: "0 \<le> z"
    using assms by (simp add: z_def)
  have lo: "of_int z \<le> a * 100 + 1 / 2" and hi: "a * 100 + 1 / 2 < of_int z + 1"
    unfolding z_def by linarith+
  have b: "\<bar>of_int z - a * 100\<bar> \<le> 1 / 2"
    using lo hi by linarith
  have e: "of_nat (nat z) / 100 - a = (of_int z - a * 100) / 100"
    using z0 by (simp add: field_simps)
  have "\<bar>of_nat (nat z) / 100 - a\<bar> = \<bar>of_int z - a * 100\<bar> / 100"
    unfolding e by simp
  also have "\<dots> \<le> (1 / 2) / 100"
    by (rule divide_right_mono [OF b]) simp
  finally show ?thesis
    unfolding z_def by simp
qed

text \<open>
  Below \<open>10^21\<close> the amount field has the format of the specification: for every finite
  amount of magnitude below \<open>10^21\<close> it is \<open>RSD\<close>, a minus sign when the amount is negative,
  the digits of the integer part, a comma and exactly two digits, the number printed being
  the amount rounded to the nearest hundredth.
\<close>

lemma amount_field_below_1e21:
  "(isValidBankAccount (bankAccount params) \<and> amount params = Fin q \<and> \<bar>q\<bar> < 10 ^ 21 \<longrightarrow>
      (\<exists>d. generateQRCodeData h params = Inr d
         \<and> qrI d = js ''RSD'' @ (if q < 0 then js ''-'' else []) @
                   decimal (nat \<lfloor>\<bar>q\<bar> * 100 + 1 / 2\<rfloor> div 100) @ js '','' @
                   [0x30 + nat \<lfloor>\<bar>q\<bar> * 100 + 1 / 2\<rfloor> mod 100 div 10,
                    0x30 + nat \<lfloor>\<bar>q\<bar> * 100 + 1 / 2\<rfloor> mod 10]
         \<and> \<bar>of_nat (nat \<lfloor>\<bar>q\<bar> * 100 + 1 / 2\<rfloor>) / 100 - \<bar>q\<bar>\<bar> \<le> 1 / 200
         \<and> (0 \<le> q \<longrightarrow> spec_amountField (qrI d))))
   \<and> (isValidBankAccount (bankAccount params) \<and> amount params = Fin 3500 \<longrightarrow>
      (\<exists>d. generateQRCodeData h params = Inr d \<and> qrI d = js ''RSD3500,00''))
   \<and> (isValidBankAccount (bankAccount params) \<and> amount params = Fin (7001 / 2) \<longrightarrow>
      (\<exists>d. generateQRCodeData h params = Inr d \<and> qrI d = js ''RSD3500,50''))"
proof (intro conjI impI)
  assume a: "isValidBankAccount (bankAccount params) \<and> amount params = Fin q \<and> \<bar>q\<bar> < 10 ^ 21"
  define n where "n = nat \<lfloor>\<bar>q\<bar> * 100 + 1 / 2\<rfloor>"
  obtain d where d: "generateQRCodeData h params = Inr d"
    "qrI d = js ''RSD'' @ replaceFirst 0x2E (js '','') (toFixed2 (largeToString h) (amount params))"
    using generateQRCodeData_valid [of params h] a by auto
  have i: "qrI d = js ''RSD'' @ (if q < 0 then js ''-'' else []) @ decimal (n div 100) @ js '','' @
                   [0x30 + n mod 100 div 10, 0x30 + n mod 10]"
    using a d(2) toFixed2_finite [of q "largeToString h"] amount_replace
    by (simp add: n_def)
  have r: "\<bar>of_nat n / 100 - \<bar>q\<bar>\<bar> \<le> 1 / 200"
    unfolding n_def by (rule round_half_up) simp
  have dg: "isDigit (0x30 + n mod 100 div 10)" "isDigit (0x30 + n mod 10)"
    by (simp_all add: isDigit_def)
  have f: "0 \<le> q \<longrightarrow> spec_amountField (qrI d)"
    using spec_amountField_digits [OF dg, of "n div 100"] i by simp
  show "\<exists>d. generateQRCodeData h params = Inr d
         \<and> qrI d = js ''RSD'' @ (if q < 0 then js ''-'' else []) @
                   decimal (nat \<lfloor>\<bar>q\<bar> * 100 + 1 / 2\<rfloor> div 100) @ js '','' @
                   [0x30 + nat \<lfloor>\<bar>q\<bar> * 100 + 1 / 2\<rfloor> mod 100 div 10,
                    0x30 + nat \<lfloor>\<bar>q\<bar> * 100 + 1 / 2\<rfloor> mod 10]
         \<and> \<bar>of_nat (nat \<lfloor>\<bar>q\<bar> * 100 + 1 / 2\<rfloor>) / 100 - \<bar>q\<bar>\<bar> \<le> 1 / 200
         \<and> (0 \<le> q \<longrightarrow> spec_amountField (qrI d))"
    using d(1) i r f unfolding n_def by blast
next
  assume a: "isValidBankAccount (bankAccount params) \<and> amount params = Fin 3500"
  obtain d where d: "generateQRCodeData h params = Inr d"
    "qrI d = js ''RSD'' @ replaceFirst 0x2E (js '','') (toFixed2 (largeToString h) (amount params))"
    using generateQRCodeData_valid [of params h] a by auto
  have lt: "\<bar>3500 :: rat\<bar> < 10 ^ 21"
    by simp
  have "\<lfloor>\<bar>3500 :: rat\<bar> * 100 + 1 / 2\<rfloor> = 350000"
    by (rule floor_unique) simp_all
  then have fl: "nat \<lfloor>\<bar>3500 :: rat\<bar> * 100 + 1 / 2\<rfloor> = 350000"
    by simp
  have "toFixed2 (largeToString h) (Fin 3500) = js ''3500.00''"
    unfolding toFixed2_finite [OF lt] fl by (simp add: decimal.simps js_def)
  then have "qrI d = js ''RSD3500,00''"
    using a d(2) by (simp add: js_def)
  with d(1) show "\<exists>d. generateQRCodeData h params = Inr d \<and> qrI d = js ''RSD3500,00''"
    by blast
next
  assume a: "isValidBankAccount (bankAccount params) \<and> amount params = Fin (7001 / 2)"
  obtain d where d: "generateQRCodeData h params = Inr d"
    "qrI d = js ''RSD'' @ replaceFirst 0x2E (js '','') (toFixed2 (largeToString h) (amount params))"
    using generateQRCodeData_valid [of params h] a by auto
  have lt: "\<bar>7001 / 2 :: rat\<bar> < 10 ^ 21"
    by simp
  have "\<lfloor>\<bar>7001 / 2 :: rat\<bar> * 100 + 1 / 2\<rfloor> = 350050"
    by (rule floor_unique) simp_all
  then have fl: "nat \<lfloor>\<bar>7001 / 2 :: rat\<bar> * 100 + 1 / 2\<rfloor> = 350050"
    by simp
  have "toFixed2 (largeToString h) (Fin (7001 / 2)) = js ''3500.50''"
    unfolding toFixed2_finite [OF lt] fl by (simp add: decimal.simps js_def)
  then have "qrI d = js ''RSD3500,50''"
    using a d(2) by (simp add: js_def)
  with d(1) show "\<exists>d. generateQRCodeData h params = Inr d \<and> qrI d = js ''RSD3500,50''"
    by blast
qed

lemma exactExponential_examples:
  "exactExponential 1000000000000000000000 = js ''1e+21''"
  "exactExponential 1500000000000000000000 = js ''1.5e+21''"
  by (simp_all add: exactExponential_def significantDigits_def decimal.simps js_def Let_def)

lemma not_amountField_examples:
  "\<not> spec_amountField (js ''RSDInfinity'')" "\<not> spec_amountField (js ''RSDNaN'')"
  "\<not> spec_amountField (js ''RSD1e+21'')" "\<not> spec_amountField (js ''RSD1,5e+21'')"
  by (simp_all add: spec_amountField_def js_def allDigits_def isDigit_def)

text \<open>
  C5. The specification has the amount field carry exactly two fractional digits for every
  numeric amount. \<open>generateQRCodeData\<close> prints the amount with \<open>toFixed(2)\<close>, which from
  \<open>10^21\<close> on, and for the amounts that are not finite, is \<open>Number::toString\<close>: the field
  is then \<open>RSD\<close> and the exponential notation of the amount with its point, if it has one,
  turned into a comma, or \<open>RSDInfinity\<close>, or \<open>RSDNaN\<close>, none of which has two fractional
  digits.
\<close>

theorem amount_field_of_large_amount:
  "isValidBankAccount (bankAccount params) \<longrightarrow>
     (amount params = Fin q \<and> 10 ^ 21 \<le> \<bar>q\<bar> \<longrightarrow>
        (\<exists>d. generateQRCodeData h params = Inr d
           \<and> qrI d = js ''RSD'' @ replaceFirst 0x2E (js '','')
                        ((if q < 0 then js ''-'' else []) @ largeToString h \<bar>q\<bar>)))
     \<and> (amount params = PosInf \<longrightarrow>
          (\<exists>d. generateQRCodeData h params = Inr d \<and> qrI d = js ''RSDInfinity''
             \<and> \<not> spec_amountField (qrI d)))
     \<and> (amount params = NaN \<longrightarrow>
          (\<exists>d. generateQRCodeData h params = Inr d \<and> qrI d = js ''RSDNaN''
             \<and> \<not> spec_amountField (qrI d)))"
proof (intro impI conjI)
  assume v: "isValidBankAccount (bankAccount params)"
  obtain d where d: "generateQRCodeData h params = Inr d"
    "qrI d = js ''RSD'' @ replaceFirst 0x2E (js '','') (toFixed2 (largeToString h) (amount params))"
    using generateQRCodeData_valid [OF v, of h] by auto
  {
    assume a: "amount params = Fin q \<and> 10 ^ 21 \<le> \<bar>q\<bar>"
    then have "toFixed2 (largeToString h) (amount params) =
        (if q < 0 then js ''-'' else []) @ largeToString h \<bar>q\<bar>"
      by (simp add: toFixed2_def Let_def)
    then show "\<exists>d. generateQRCodeData h params = Inr d
           \<and> qrI d = js ''RSD'' @ replaceFirst 0x2E (js '','')
                        ((if q < 0 then js ''-'' else []) @ largeToString h \<bar>q\<bar>)"
      using d by simp
  }
  {
    assume "amount params = PosInf"
    then have "qrI d = js ''RSDInfinity''"
      using d(2) by (simp add: toFixed2_def js_def)
    then show "\<exists>d. generateQRCodeData h params = Inr d \<and> qrI d = js ''RSDInfinity''
             \<and> \<not> spec_amountField (qrI d)"
      using d(1) not_amountField_examples(1) by simp
  }
  {
    assume "amount params = NaN"
    then have "qrI d = js ''RSDNaN''"
      using d(2) by (simp add: toFixed2_def js_def)
    then show "\<exists>d. generateQRCodeData h params = Inr d \<and> qrI d = js ''RSDNaN''
             \<and> \<not> spec_amountField (qrI d)"
      using d(1) not_amountField_examples(2) by simp
  }
qed

theorem amount_field_of_large_amount_witness:
  "isValidBankAccount (bankAccount (scenario_params (Fin 1000000000000000000000) (js ''05/03'')))
   \<and> amount (scenario_params (Fin 1000000000000000000000) (js ''05/03'')) =
       Fin 1000000000000000000000
   \<and> (10::rat) ^ 21 \<le> \<bar>1000000000000000000000\<bar>
   \<and> (\<exists>d. generateQRCodeData scenario_host
             (scenario_params (Fin 1000000000000000000000) (js ''05/03'')) = Inr d
          \<and> qrI d = js ''RSD1e+21'' \<and> \<not> spec_amountField (qrI d))
   \<and> (10::rat) ^ 21 \<le> \<bar>1500000000000000000000\<bar>
   \<and> (\<exists>d. generateQRCodeData scenario_host
             (scenario_params (Fin 1500000000000000000000) (js ''05/03'')) = Inr d
          \<and> qrI d = js ''RSD1,5e+21'' \<and> \<not> spec_amountField (qrI d))
   \<and> amount (scenario_params PosInf (js ''05/03'')) = PosInf
   \<and> (\<exists>d. generateQRCodeData scenario_host (scenario_params PosInf (js ''05/03'')) = Inr d
          \<and> qrI d = js ''RSDInfinity'' \<and> \<not> spec_amountField (qrI d))
   \<and> amount (scenario_params NaN (js ''05/03'')) = NaN
   \<and> (\<exists>d. generateQRCodeData scenario_host (scenario_params NaN (js ''05/03'')) = Inr d
          \<and> qrI d = js ''RSDNaN'' \<and> \<not> spec_amountField (qrI d))"
proof -
  have v: "isValidBankAccount (bankAccount (scenario_params x (js ''05/03'')))" for x
    using scenario_account_valid by (simp add: scenario_params_def)
  have am: "amount (scenario_params x (js ''05/03'')) = x" for x
    by (simp add: scenario_params_def)
  have ge: "(10::rat) ^ 21 \<le> \<bar>1000000000000000000000\<bar>" "(10::rat) ^ 21 \<le> \<bar>1500000000000000000000\<bar>"
    by simp_all
  have l: "largeToString scenario_host = exactExponential"
    by (simp add: scenario_host_def)
  obtain d1 where d1:
    "generateQRCodeData scenario_host (scenario_params (Fin 1000000000000000000000) (js ''05/03'')) = Inr d1"
    "qrI d1 = js ''RSD'' @ replaceFirst 0x2E (js '','')
       ((if (1000000000000000000000::rat) < 0 then js ''-'' else []) @
        largeToString scenario_host \<bar>1000000000000000000000\<bar>)"
    using amount_field_of_large_amount
      [of "scenario_params (Fin 1000000000000000000000) (js ''05/03'')" 1000000000000000000000
          scenario_host] v am ge(1)
    by blast
  have i1: "qrI d1 = js ''RSD1e+21''"
    unfolding d1(2) l by (simp add: exactExponential_examples) (simp add: js_def)
  obtain d2 where d2:
    "generateQRCodeData scenario_host (scenario_params (Fin 1500000000000000000000) (js ''05/03'')) = Inr d2"
    "qrI d2 = js ''RSD'' @ replaceFirst 0x2E (js '','')
       ((if (1500000000000000000000::rat) < 0 then js ''-'' else []) @
        largeToString scenario_host \<bar>1500000000000000000000\<bar>)"
    using amount_field_of_large_amount
      [of "scenario_params (Fin 1500000000000000000000) (js ''05/03'')" 1500000000000000000000
          scenario_host] v am ge(2)
    by blast
  have i2: "qrI d2 = js ''RSD1,5e+21''"
    unfolding d2(2) l by (simp add: exactExponential_examples) (simp add: js_def)
  obtain d3 where d3:
    "generateQRCodeData scenario_host (scenario_params PosInf (js ''05/03'')) = Inr d3"
    "qrI d3 = js ''RSDInfinity''" "\<not> spec_amountField (qrI d3)"
    using amount_field_of_large_amount [of "scenario_params PosInf (js ''05/03'')" _ scenario_host]
      v am
    by blast
  obtain d4 where d4:
    "generateQRCodeData scenario_host (scenario_params NaN (js ''05/03'')) = Inr d4"
    "qrI d4 = js ''RSDNaN''" "\<not> spec_amountField (qrI d4)"
    using amount_field_of_large_amount [of "scenario_params NaN (js ''05/03'')" _ scenario_host]
      v am
    by blast
  have n1: "\<not> spec_amountField (qrI d1)" and n2: "\<not> spec_amountField (qrI d2)"
    unfolding i1 i2 by (rule not_amountField_examples)+
  show ?thesis
    using v [of "Fin 1000000000000000000000"] am ge d1(1) i1 n1 d2(1) i2 n2 d3 d4 by blast
qed

lemma digit_pair: "isDigit (0x30 + n div 10) \<longleftrightarrow> n < 100" "isDigit (0x30 + n mod 10)"
  by (auto simp: isDigit_def)

lemma strip_slash:
  assumes "isDigit a" "isDigit b"
  shows "replaceFirst 0x2F r ([a, b] @ 0x2F # rest) = [a, b] @ r @ rest"
  using assms by (simp add: isDigit_def)

lemma reference_parts:
  assumes "1 \<le> a" "a \<le> 99" "1 \<le> m" "m \<le> 12"
  shows "padStart 2 0x30 (intToString a) @ js ''/'' @ padStart 2 0x30 (intToString m) =
           [0x30 + nat a div 10, 0x30 + nat a mod 10, 0x2F, 0x30 + nat m div 10, 0x30 + nat m mod 10]"
    and "replaceFirst 0x2F [] (padStart 2 0x30 (intToString a) @ js ''/'' @ padStart 2 0x30 (intToString m)) =
           [0x30 + nat a div 10, 0x30 + nat a mod 10, 0x30 + nat m div 10, 0x30 + nat m mod 10]"
    and "isDigit (0x30 + nat a div 10)" "isDigit (0x30 + nat a mod 10)"
        "isDigit (0x30 + nat m div 10)" "isDigit (0x30 + nat m mod 10)"
proof -
  have pa: "padStart 2 0x30 (intToString a) = [0x30 + nat a div 10, 0x30 + nat a mod 10]"
    using assms by (simp add: pad2)
  have pm: "padStart 2 0x30 (intToString m) = [0x30 + nat m div 10, 0x30 + nat m mod 10]"
    using assms by (simp add: pad2)
  show d: "isDigit (0x30 + nat a div 10)" "isDigit (0x30 + nat a mod 10)"
        "isDigit (0x30 + nat m div 10)" "isDigit (0x30 + nat m mod 10)"
    using assms by (simp_all add: digit_pair)
  show "padStart 2 0x30 (intToString a) @ js ''/'' @ padStart 2 0x30 (intToString m) =
           [0x30 + nat a div 10, 0x30 + nat a mod 10, 0x2F, 0x30 + nat m div 10, 0x30 + nat m mod 10]"
    unfolding pa pm by (simp add: js_def)
  show "replaceFirst 0x2F [] (padStart 2 0x30 (intToString a) @ js ''/'' @ padStart 2 0x30 (intToString m)) =
           [0x30 + nat a div 10, 0x30 + nat a mod 10, 0x30 + nat m div 10, 0x30 + nat m mod 10]"
    unfolding pa pm using strip_slash [OF d(1,2), of "[]"] by (simp add: js_def)
qed

text \<open>
  C6. For every apartment number in 1..99 and month in 1..12 the display reference number is
  the two segments, each padded with a zero to two digits, joined by the delimiter
  (apartment 3 and month 2 give \<open>03/02\<close>), and the field \<open>RO\<close> of the payload built from it
  is the display reference without the delimiter (\<open>0302\<close>). The worker's variant, which
  joins with a dash and strips slash and dash, gives the same four digits.
\<close>

theorem reference_number_zero_padded:
  "(1 \<le> a \<and> a \<le> 99 \<and> 1 \<le> m \<and> m \<le> 12 \<longrightarrow>
      generateReferenceNumber a m =
        [0x30 + nat a div 10, 0x30 + nat a mod 10, 0x2F, 0x30 + nat m div 10, 0x30 + nat m mod 10]
      \<and> length (generateReferenceNumber a m) = 5
      \<and> (isValidBankAccount (bankAccount params)
           \<and> referenceNumber params = generateReferenceNumber a m \<longrightarrow>
          (\<exists>d. generateQRCodeData h params = Inr d
             \<and> qrRO d = filter (\<lambda>c. c \<noteq> 0x2F) (generateReferenceNumber a m)
             \<and> qrRO d = [0x30 + nat a div 10, 0x30 + nat a mod 10,
                          0x30 + nat m div 10, 0x30 + nat m mod 10]))
      \<and> formatReference_worker (generateReferenceNumber_worker a m) =
          filter (\<lambda>c. c \<noteq> 0x2D) (generateReferenceNumber_worker a m)
      \<and> formatReference_worker (generateReferenceNumber_worker a m) =
          [0x30 + nat a div 10, 0x30 + nat a mod 10, 0x30 + nat m div 10, 0x30 + nat m mod 10])
   \<and> generateReferenceNumber 3 2 = js ''03/02''
   \<and> (isValidBankAccount (bankAccount params) \<and> referenceNumber params = js ''03/02'' \<longrightarrow>
        (\<exists>d. generateQRCodeData h params = Inr d \<and> qrRO d = js ''0302''))"
proof (intro conjI impI)
  assume r: "1 \<le> a \<and> a \<le> 99 \<and> 1 \<le> m \<and> m \<le> 12"
  note p = reference_parts [of a m]
  show g: "generateReferenceNumber a m =
        [0x30 + nat a div 10, 0x30 + nat a mod 10, 0x2F, 0x30 + nat m div 10, 0x30 + nat m mod 10]"
    using r p(1) by (simp add: generateReferenceNumber_def Let_def)
  then show "length (generateReferenceNumber a m) = 5"
    by simp
  have dg: "0x30 + nat a div 10 \<noteq> 0x2F" "0x30 + nat a mod 10 \<noteq> 0x2F"
      "0x30 + nat m div 10 \<noteq> 0x2F" "0x30 + nat m mod 10 \<noteq> 0x2F"
      "0x30 + nat a div 10 \<noteq> 0x2D" "0x30 + nat a mod 10 \<noteq> 0x2D"
      "0x30 + nat m div 10 \<noteq> 0x2D" "0x30 + nat m mod 10 \<noteq> 0x2D"
    by simp_all
  have pa: "padStart 2 0x30 (intToString a) = [0x30 + nat a div 10, 0x30 + nat a mod 10]"
    and pm: "padStart 2 0x30 (intToString m) = [0x30 + nat m div 10, 0x30 + nat m mod 10]"
    using r by (simp_all add: pad2)
  have w: "generateReferenceNumber_worker a m =
        [0x30 + nat a div 10, 0x30 + nat a mod 10, 0x2D, 0x30 + nat m div 10, 0x30 + nat m mod 10]"
    unfolding generateReferenceNumber_worker_def Let_def pa pm by (simp add: js_def)
  show fw: "formatReference_worker (generateReferenceNumber_worker a m) =
          [0x30 + nat a div 10, 0x30 + nat a mod 10, 0x30 + nat m div 10, 0x30 + nat m mod 10]"
    unfolding w formatReference_worker_def using dg by simp
  show "formatReference_worker (generateReferenceNumber_worker a m) =
          filter (\<lambda>c. c \<noteq> 0x2D) (generateReferenceNumber_worker a m)"
    unfolding fw unfolding w using dg by simp
  {
    assume a: "isValidBankAccount (bankAccount params)
           \<and> referenceNumber params = generateReferenceNumber a m"
    obtain d where d: "generateQRCodeData h params = Inr d"
      "qrRO d = replaceFirst 0x2F [] (referenceNumber params)"
      using generateQRCodeData_valid [of params h] a by auto
    have ro: "qrRO d = [0x30 + nat a div 10, 0x30 + nat a mod 10,
                          0x30 + nat m div 10, 0x30 + nat m mod 10]"
      using d(2) a r p(2) by (simp add: generateReferenceNumber_def Let_def)
    have "filter (\<lambda>c. c \<noteq> 0x2F) (generateReferenceNumber a m) =
          [0x30 + nat a div 10, 0x30 + nat a mod 10, 0x30 + nat m div 10, 0x30 + nat m mod 10]"
      unfolding g using dg by simp
    with d(1) ro show "\<exists>d. generateQRCodeData h params = Inr d
             \<and> qrRO d = filter (\<lambda>c. c \<noteq> 0x2F) (generateReferenceNumber a m)
             \<and> qrRO d = [0x30 + nat a div 10, 0x30 + nat a mod 10,
                          0x30 + nat m div 10, 0x30 + nat m mod 10]"
      by simp
  }
next
  show "generateReferenceNumber 3 2 = js ''03/02''"
    by (simp add: generateReferenceNumber_def Let_def intToString_def decimal_small padStart_def js_def)
next
  assume a: "isValidBankAccount (bankAccount params) \<and> referenceNumber params = js ''03/02''"
  obtain d where d: "generateQRCodeData h params = Inr d"
      "qrRO d = replaceFirst 0x2F [] (referenceNumber params)"
    using generateQRCodeData_valid [of params h] a by auto
  have "qrRO d = js ''0302''"
    using d(2) a by (simp add: js_def)
  with d(1) show "\<exists>d. generateQRCodeData h params = Inr d \<and> qrRO d = js ''0302''"
    by simp
qed

theorem reference_number_zero_padded_witness:
  "(1::int) \<le> 3 \<and> (3::int) \<le> 99 \<and> (1::int) \<le> 2 \<and> (2::int) \<le> 12
   \<and> isValidBankAccount (bankAccount (scenario_params (Fin 3500) (generateReferenceNumber 3 2)))
   \<and> generateReferenceNumber 3 2 = js ''03/02''
   \<and> (\<exists>d. generateQRCodeData scenario_host
             (scenario_params (Fin 3500) (generateReferenceNumber 3 2)) = Inr d
          \<and> qrRO d = js ''0302'')"
proof -
  have v: "isValidBankAccount
      (bankAccount (scenario_params (Fin 3500) (generateReferenceNumber 3 2)))"
    using scenario_account_valid by (simp add: scenario_params_def)
  note t = reference_number_zero_padded
    [of 3 2 "scenario_params (Fin 3500) (generateReferenceNumber 3 2)"
        scenario_host]
  have g: "generateReferenceNumber 3 2 = js ''03/02''"
    using t by blast
  have r: "(1::int) \<le> 3 \<and> (3::int) \<le> 99 \<and> (1::int) \<le> 2 \<and> (2::int) \<le> 12"
    by simp
  have rp: "referenceNumber (scenario_params (Fin 3500) (generateReferenceNumber 3 2)) =
      generateReferenceNumber 3 2"
    by (simp add: scenario_params_def)
  obtain d where d: "generateQRCodeData scenario_host
             (scenario_params (Fin 3500) (generateReferenceNumber 3 2)) = Inr d"
     "qrRO d = [0x30 + nat 3 div 10, 0x30 + nat 3 mod 10, 0x30 + nat 2 div 10, 0x30 + nat 2 mod 10]"
    using t r v rp by blast
  have "qrRO d = js ''0302''"
    unfolding d(2) by (simp add: js_def)
  then show ?thesis
    using r v g d(1) by blast
qed

lemma paymentQRData_reference:
  assumes "paymentQRData h apartment building month = Inr d"
  shows "qrRO d = replaceFirst 0x2F []
           (padStart 2 0x30 (intToString (apartment_number apartment)) @ js ''/'' @
            padStart 2 0x30 (intToString month))"
  using assms
  by (auto simp: paymentQRData_def generateQRCodeData_def Let_def split: sum.splits)

lemma paymentQRData_valid:
  "isValidBankAccount (bank_account building) \<Longrightarrow> \<exists>d. paymentQRData h apartment building month = Inr d"
  by (cases "parseBankAccount (bank_account building)")
     (simp_all add: isValidBankAccount_def paymentQRData_def generateQRCodeData_def
        formatForQR_def Let_def)

text \<open>
  C10. For every apartment number in 1..99 and month in 1..12, the payload that
  \<open>generatePaymentQRCode\<close> builds and sends has a field \<open>RO\<close> of exactly four decimal
  digits: the apartment number and the month, each padded to two digits, with no delimiter
  left. The payload exists whenever the bank account of the building parses.
\<close>

theorem payment_qr_reference_four_digits:
  "1 \<le> apartment_number apartment \<and> apartment_number apartment \<le> 99 \<and> 1 \<le> month \<and> month \<le> 12 \<longrightarrow>
     (isValidBankAccount (bank_account building) \<longrightarrow>
        (\<exists>d. paymentQRData h apartment building month = Inr d
           \<and> generatePaymentQRCode h apartment building month year sz k = fetchQRCode h d sz k))
     \<and> (\<forall>d. paymentQRData h apartment building month = Inr d \<longrightarrow>
          qrRO d = [0x30 + nat (apartment_number apartment) div 10,
                    0x30 + nat (apartment_number apartment) mod 10,
                    0x30 + nat month div 10, 0x30 + nat month mod 10]
          \<and> length (qrRO d) = 4 \<and> list_all isDigit (qrRO d))"
proof (intro impI conjI allI)
  assume r: "1 \<le> apartment_number apartment \<and> apartment_number apartment \<le> 99 \<and> 1 \<le> month \<and> month \<le> 12"
  {
    assume "isValidBankAccount (bank_account building)"
    then obtain d where "paymentQRData h apartment building month = Inr d"
      using paymentQRData_valid by blast
    then show "\<exists>d. paymentQRData h apartment building month = Inr d
           \<and> generatePaymentQRCode h apartment building month year sz k = fetchQRCode h d sz k"
      by (simp add: generatePaymentQRCode_def)
  }
  fix d
  assume d: "paymentQRData h apartment building month = Inr d"
  note p = reference_parts [of "apartment_number apartment" month]
  show ro: "qrRO d = [0x30 + nat (apartment_number apartment) div 10,
                    0x30 + nat (apartment_number apartment) mod 10,
                    0x30 + nat month div 10, 0x30 + nat month mod 10]"
    using paymentQRData_reference [OF d] r p(2) by simp
  show "length (qrRO d) = 4"
    unfolding ro by simp
  show "list_all isDigit (qrRO d)"
    unfolding ro using r p(3-6) by simp
qed

theorem payment_qr_reference_four_digits_witness:
  "1 \<le> apartment_number scenario_apartment \<and> apartment_number scenario_apartment \<le> 99
   \<and> (1::int) \<le> 3 \<and> (3::int) \<le> 12
   \<and> isValidBankAccount (bank_account scenario_building)
   \<and> (\<exists>d. paymentQRData scenario_host scenario_apartment scenario_building 3 = Inr d
          \<and> qrRO d = js ''0503'' \<and> list_all isDigit (qrRO d))"
proof -
  have r: "1 \<le> apartment_number scenario_apartment \<and> apartment_number scenario_apartment \<le> 99
     \<and> (1::int) \<le> 3 \<and> (3::int) \<le> 12"
    by (simp add: scenario_apartment_def)
  have v: "isValidBankAccount (bank_account scenario_building)"
    using scenario_account_valid by (simp add: scenario_building_def)
  note t = payment_qr_reference_four_digits
    [of scenario_apartment 3 scenario_building scenario_host]
  obtain d where d: "paymentQRData scenario_host scenario_apartment scenario_building 3 = Inr d"
    using t r v by blast
  have ro: "qrRO d = [0x30 + nat (apartment_number scenario_apartment) div 10,
                  0x30 + nat (apartment_number scenario_apartment) mod 10,
                  0x30 + nat 3 div 10, 0x30 + nat 3 mod 10]"
    and dg: "list_all isDigit (qrRO d)"
    using t r d by blast+
  have "qrRO d = js ''0503''"
    unfolding ro by (simp add: scenario_apartment_def js_def)
  then show ?thesis
    using r v d dg by blast
qed

section \<open>Properties of the payment slip generator\<close>

lemma pagesAfter_step:
  "(if 0 < i \<and> i mod 3 = 0 then pagesAfter i + 1 else pagesAfter i) = i div 3 + 1"
  "pagesAfter (Suc i) = i div 3 + 1"
  by (auto simp: pagesAfter_def max_def) presburger+

lemma drawPaymentSlip_ok:
  assumes "Serbian \<in> set (fonts doc)" "SerbianBold \<in> set (fonts doc)"
    "formatForDisplay (bank_account b) = Inr acct"
    "\<And>img. qr = Some img \<Longrightarrow> imageDecodes h img"
  shows "drawPaymentSlip h doc a b m y k qr =
     Inr (doc\<lparr>slips := slips doc @
            [\<lparr>onPage = pageCount doc - 1, slot = k, ops = slipOps a b m k qr acct\<rparr>]\<rparr>)"
  using assms by (cases qr) (simp_all add: drawPaymentSlip_def)

lemma drawPaymentSlip_Inr:
  assumes "drawPaymentSlip h doc a b m y k qr = Inr doc'"
  shows "Serbian \<in> set (fonts doc)" "SerbianBold \<in> set (fonts doc)"
    "\<exists>acct. formatForDisplay (bank_account b) = Inr acct"
    "qr = Some img \<Longrightarrow> imageDecodes h img"
    "fonts doc' = fonts doc"
  using assms
  by (auto simp: drawPaymentSlip_def split: if_splits sum.splits option.splits)

lemma drawSlips_run:
  assumes "Serbian \<in> set (fonts doc)" "SerbianBold \<in> set (fonts doc)"
    "formatForDisplay (bank_account b) = Inr acct"
    "pageCount doc = pagesAfter i" "i \<le> length srt"
    "\<And>j img. i \<le> j \<Longrightarrow> j < length srt \<Longrightarrow> at_index qrs j = Some img \<Longrightarrow> imageDecodes h img"
  shows "drawSlips h srt b m y qrs i doc =
     Inr (doc\<lparr>pageCount := pagesAfter (length srt),
              slips := slips doc @ map (slipDrawnAt srt b m qrs acct) [i..<length srt]\<rparr>)"
  using assms
proof (induction "length srt - i" arbitrary: i doc)
  case 0
  then have "i = length srt" by simp
  then show ?case
    using 0 by (subst drawSlips.simps) simp
next
  case (Suc n)
  then have lt: "i < length srt" by simp
  define doc1 where "doc1 = (if 0 < i \<and> i mod 3 = 0 then addPage doc else doc)"
  have "pageCount doc1 = (if 0 < i \<and> i mod 3 = 0 then pagesAfter i + 1 else pagesAfter i)"
    using Suc.prems(4) by (simp add: doc1_def addPage_def)
  also have "\<dots> = i div 3 + 1"
    by (rule pagesAfter_step(1))
  finally have p1: "pageCount doc1 = i div 3 + 1" .
  have f1: "Serbian \<in> set (fonts doc1)" "SerbianBold \<in> set (fonts doc1)"
    and s1: "slips doc1 = slips doc"
    using Suc.prems(1,2) by (simp_all add: doc1_def addPage_def)
  define doc2 where "doc2 = doc1\<lparr>slips := slips doc1 @ [slipDrawnAt srt b m qrs acct i]\<rparr>"
  have dec: "imageDecodes h img" if "at_index qrs i = Some img" for img
    using Suc.prems(6) [of i img] lt that by simp
  have d: "drawPaymentSlip h doc1 (srt ! i) b m y (i mod 3) (at_index qrs i) = Inr doc2"
    using drawPaymentSlip_ok [OF f1 Suc.prems(3) dec, of "at_index qrs i" "srt ! i" m y "i mod 3"] p1
    by (simp add: doc2_def slipDrawnAt_def)
  have ih: "drawSlips h srt b m y qrs (Suc i) doc2 =
     Inr (doc2\<lparr>pageCount := pagesAfter (length srt),
              slips := slips doc2 @ map (slipDrawnAt srt b m qrs acct) [Suc i..<length srt]\<rparr>)"
  proof (rule Suc.hyps(1))
    show "n = length srt - Suc i" using Suc.hyps(2) by simp
    show "Serbian \<in> set (fonts doc2)" "SerbianBold \<in> set (fonts doc2)"
      using f1 by (simp_all add: doc2_def)
    show "formatForDisplay (bank_account b) = Inr acct" by (rule Suc.prems(3))
    show "pageCount doc2 = pagesAfter (Suc i)" using p1 pagesAfter_step(2) [of i] by (simp add: doc2_def)
    show "Suc i \<le> length srt" using lt by simp
    show "imageDecodes h img" if "Suc i \<le> j" "j < length srt" "at_index qrs j = Some img" for j img
      using Suc.prems(6) [of j img] that by simp
  qed
  have e: "doc2\<lparr>pageCount := pagesAfter (length srt),
              slips := slips doc2 @ map (slipDrawnAt srt b m qrs acct) [Suc i..<length srt]\<rparr> =
        doc\<lparr>pageCount := pagesAfter (length srt),
              slips := slips doc @ map (slipDrawnAt srt b m qrs acct) [i..<length srt]\<rparr>"
    using lt by (simp add: doc2_def doc1_def addPage_def upt_conv_Cons)
  show ?case
    apply (subst drawSlips.simps)
    using lt d ih e by (simp add: Let_def doc1_def)
qed

lemma drawSlips_Inr:
  assumes "drawSlips h srt b m y qrs i doc = Inr doc'" "i < length srt"
  shows "Serbian \<in> set (fonts doc) \<and> SerbianBold \<in> set (fonts doc)
     \<and> (\<exists>acct. formatForDisplay (bank_account b) = Inr acct)
     \<and> (\<forall>j img. i \<le> j \<and> j < length srt \<and> at_index qrs j = Some img \<longrightarrow> imageDecodes h img)"
  using assms
proof (induction "length srt - i" arbitrary: i doc)
  case 0
  then show ?case by simp
next
  case (Suc n)
  note lt = Suc.prems(2)
  define doc1 where "doc1 = (if 0 < i \<and> i mod 3 = 0 then addPage doc else doc)"
  have f1: "fonts doc1 = fonts doc"
    by (simp add: doc1_def addPage_def)
  have "drawSlips h srt b m y qrs i doc =
     (case drawPaymentSlip h doc1 (srt ! i) b m y (i mod 3) (at_index qrs i) of
        Inl e \<Rightarrow> Inl e
      | Inr doc2 \<Rightarrow> drawSlips h srt b m y qrs (i + 1) doc2)"
    by (subst drawSlips.simps) (simp add: Let_def doc1_def lt)
  with Suc.prems(1) obtain doc2 where
    d: "drawPaymentSlip h doc1 (srt ! i) b m y (i mod 3) (at_index qrs i) = Inr doc2"
    and r: "drawSlips h srt b m y qrs (Suc i) doc2 = Inr doc'"
    by (cases "drawPaymentSlip h doc1 (srt ! i) b m y (i mod 3) (at_index qrs i)") simp_all
  note p = drawPaymentSlip_Inr [OF d]
  have rest: "imageDecodes h img"
    if j: "Suc i \<le> j" "j < length srt" "at_index qrs j = Some img" for j img
  proof -
    have s: "Suc i < length srt" using j by simp
    have "n = length srt - Suc i" using Suc.hyps(2) by simp
    from Suc.hyps(1) [OF this r s] j show ?thesis by blast
  qed
  have "imageDecodes h img"
    if j: "i \<le> j" "j < length srt" "at_index qrs j = Some img" for j img
  proof (cases "j = i")
    case True
    then show ?thesis using p(4) j(3) by simp
  next
    case False
    then have "Suc i \<le> j" using j(1) by simp
    then show ?thesis using rest j by blast
  qed
  then show ?case
    using p(1,2,3) f1 by auto
qed

lemma fetchQRCode_snd: "snd (fetchQRCode h d sz k) = Suc k"
  by (simp add: fetchQRCode_def split: sum.splits)

lemma fetchQRCode_fails:
  "fst (fetchQRCode h d QR_GENERATE_SIZE k) =
     (if fetchFails h k d then fst (fetchQRCode h d QR_GENERATE_SIZE k)
      else Inr (body (projr (network h k d QR_GENERATE_SIZE))))"
  "isl (fst (fetchQRCode h d QR_GENERATE_SIZE k)) \<longleftrightarrow> fetchFails h k d"
  by (auto simp: fetchQRCode_def fetchFails_def split: sum.splits)

lemma generatePaymentQRCode_snd:
  "isValidBankAccount (bank_account b) \<Longrightarrow> snd (generatePaymentQRCode h a b m y sz k) = Suc k"
  using paymentQRData_valid [of b h a m]
  by (auto simp: generatePaymentQRCode_def fetchQRCode_snd)

lemma generatePaymentQRCode_Inr:
  assumes "fst (generatePaymentQRCode h a b m y sz k) = Inr img"
  shows "\<exists>d r. paymentQRData h a b m = Inr d \<and> network h k d sz = Inr r \<and> img = body r
           \<and> 200 \<le> status r \<and> status r \<le> 299"
  using assms
  by (auto simp: generatePaymentQRCode_def fetchQRCode_def split: sum.splits if_splits)

lemma qrCodesFor_length: "length (fst (qrCodesFor h b m y xs k)) = length xs"
proof (induction xs arbitrary: k)
  case Nil
  then show ?case by simp
next
  case (Cons a xs)
  obtain r k' where g: "generatePaymentQRCode h a b m y QR_GENERATE_SIZE k = (r, k')"
    by (cases "generatePaymentQRCode h a b m y QR_GENERATE_SIZE k")
  obtain rs k'' where q: "qrCodesFor h b m y xs k' = (rs, k'')"
    by (cases "qrCodesFor h b m y xs k'")
  show ?case
    using Cons.IH [of k'] g q by simp
qed

lemma qrCodesFor_bodies:
  assumes "Some img \<in> set (fst (qrCodesFor h b m y xs k))"
  shows "\<exists>k' d r. network h k' d QR_GENERATE_SIZE = Inr r \<and> img = body r"
  using assms
proof (induction xs arbitrary: k)
  case Nil
  then show ?case by simp
next
  case (Cons a xs)
  obtain r k' where g: "generatePaymentQRCode h a b m y QR_GENERATE_SIZE k = (r, k')"
    by (cases "generatePaymentQRCode h a b m y QR_GENERATE_SIZE k")
  obtain rs k'' where q: "qrCodesFor h b m y xs k' = (rs, k'')"
    by (cases "qrCodesFor h b m y xs k'")
  from Cons.prems g q
  consider "r = Inr img" | "Some img \<in> set (fst (qrCodesFor h b m y xs k'))"
    by (auto split: sum.splits)
  then show ?case
  proof cases
    case 1
    then have "fst (generatePaymentQRCode h a b m y QR_GENERATE_SIZE k) = Inr img"
      using g by simp
    from generatePaymentQRCode_Inr [OF this] show ?thesis by blast
  next
    case 2
    then show ?thesis by (rule Cons.IH)
  qed
qed

lemma qrCodesFor_nth:
  assumes "isValidBankAccount (bank_account b)" "i < length xs"
  shows "fst (qrCodesFor h b m y xs k) ! i =
     (case fst (generatePaymentQRCode h (xs ! i) b m y QR_GENERATE_SIZE (k + i)) of
        Inl err \<Rightarrow> None | Inr img \<Rightarrow> Some img)"
  using assms(2)
proof (induction xs arbitrary: k i)
  case Nil
  then show ?case by simp
next
  case (Cons a xs)
  obtain r k' where g: "generatePaymentQRCode h a b m y QR_GENERATE_SIZE k = (r, k')"
    by (cases "generatePaymentQRCode h a b m y QR_GENERATE_SIZE k")
  have k': "k' = Suc k"
    using generatePaymentQRCode_snd [OF assms(1), of h a m y QR_GENERATE_SIZE k] g by simp
  obtain rs k'' where q: "qrCodesFor h b m y xs k' = (rs, k'')"
    by (cases "qrCodesFor h b m y xs k'")
  show ?case
  proof (cases i)
    case 0
    then show ?thesis using g q by simp
  next
    case (Suc i')
    then have "i' < length xs" using Cons.prems by simp
    from Cons.IH [OF this, of k'] show ?thesis
      using g q Suc k' by simp
  qed
qed

lemma qr_none_iff:
  assumes "paymentQRData h a b m = Inr d"
  shows "(case fst (generatePaymentQRCode h a b m y QR_GENERATE_SIZE k) of
            Inl err \<Rightarrow> None | Inr img \<Rightarrow> Some img) = None \<longleftrightarrow> fetchFails h k d"
  using assms fetchQRCode_fails(2) [of h d k]
  by (cases "fst (fetchQRCode h d QR_GENERATE_SIZE k)") (simp_all add: generatePaymentQRCode_def)

lemma qr_some:
  assumes "paymentQRData h a b m = Inr d"
    "(case fst (generatePaymentQRCode h a b m y QR_GENERATE_SIZE k) of
        Inl err \<Rightarrow> None | Inr img \<Rightarrow> Some img) = Some img"
  shows "\<exists>r. network h k d QR_GENERATE_SIZE = Inr r \<and> img = body r \<and> \<not> fetchFails h k d"
  using assms
  by (auto simp: generatePaymentQRCode_def fetchQRCode_def fetchFails_def
      split: sum.splits if_splits)

lemma allDecode_at_index:
  assumes "allDecode h qrs" "at_index qrs j = Some img"
  shows "imageDecodes h img"
proof -
  have j: "j < length qrs" "qrs ! j = Some img"
    using assms(2) by (simp_all add: at_index_def split: if_splits)
  then have "Some img \<in> set qrs"
    using nth_mem [of j qrs] by simp
  then show ?thesis
    using assms(1) by (auto simp: allDecode_def list_all_iff)
qed

lemma allDecodeI:
  assumes "\<And>j img. j < length qrs \<Longrightarrow> at_index qrs j = Some img \<Longrightarrow> imageDecodes h img"
  shows "allDecode h qrs"
  unfolding allDecode_def list_all_length
proof (intro allI impI)
  fix n
  assume n: "n < length qrs"
  show "case qrs ! n of None \<Rightarrow> True | Some img \<Rightarrow> imageDecodes h img"
  proof (cases "qrs ! n")
    case None
    then show ?thesis by simp
  next
    case (Some img)
    then have "at_index qrs n = Some img" using n by (simp add: at_index_def)
    from assms [OF n this] Some show ?thesis by simp
  qed
qed

lemma allDecode_scenario:
  "allDecode scenario_host (fst (qrCodesFor scenario_host b m y xs k))"
  "allDecode (flaky_host j) (fst (qrCodesFor (flaky_host j) b m y xs k))"
proof -
  show "allDecode scenario_host (fst (qrCodesFor scenario_host b m y xs k))"
  proof (rule allDecodeI)
    fix i img
    assume "i < length (fst (qrCodesFor scenario_host b m y xs k))"
      "at_index (fst (qrCodesFor scenario_host b m y xs k)) i = Some img"
    then have "Some img \<in> set (fst (qrCodesFor scenario_host b m y xs k))"
      using nth_mem [of i "fst (qrCodesFor scenario_host b m y xs k)"] by (simp add: at_index_def)
    from qrCodesFor_bodies [OF this] show "imageDecodes scenario_host img"
      by (auto simp: scenario_host_def)
  qed
  show "allDecode (flaky_host j) (fst (qrCodesFor (flaky_host j) b m y xs k))"
  proof (rule allDecodeI)
    fix i img
    assume "i < length (fst (qrCodesFor (flaky_host j) b m y xs k))"
      "at_index (fst (qrCodesFor (flaky_host j) b m y xs k)) i = Some img"
    then have "Some img \<in> set (fst (qrCodesFor (flaky_host j) b m y xs k))"
      using nth_mem [of i "fst (qrCodesFor (flaky_host j) b m y xs k)"] by (simp add: at_index_def)
    from qrCodesFor_bodies [OF this] show "imageDecodes (flaky_host j) img"
      by (auto simp: flaky_host_def scenario_host_def split: if_splits)
  qed
qed

lemma sort_key_distinct:
  assumes "distinct (map f xs)"
  shows "distinct (map f (sort_key f xs))"
proof -
  have "mset (map f (sort_key f xs)) = mset (map f xs)"
    by simp
  then have "distinct (map f (sort_key f xs)) = distinct (map f xs)"
    by (rule mset_eq_imp_distinct_iff)
  then show ?thesis
    using assms by simp
qed

lemma sort_key_strict:
  "distinct (map f xs) \<Longrightarrow> sorted_wrt (<) (map f (sort_key f xs))"
  by (simp add: strict_sorted_iff sort_key_distinct)

lemma sort_key_of_permutation:
  assumes "distinct (map f xs)" "mset ys = mset xs"
  shows "sort_key f ys = sort_key f xs"
proof (rule map_sorted_distinct_set_unique [where f = f])
  have "mset (map f ys) = mset (map f xs)"
    using assms(2) by simp
  then have "distinct (map f ys) = distinct (map f xs)"
    by (rule mset_eq_imp_distinct_iff)
  then have dy: "distinct (map f ys)"
    using assms(1) by simp
  have s: "set ys = set xs"
    using assms(2) by (rule mset_eq_setD)
  show "inj_on f (set (sort_key f ys) \<union> set (sort_key f xs))"
    using assms(1) s by (simp add: distinct_map)
  show "sorted (map f (sort_key f ys))" "sorted (map f (sort_key f xs))"
    by simp_all
  show "distinct (map f (sort_key f ys))"
    by (rule sort_key_distinct [OF dy])
  show "distinct (map f (sort_key f xs))"
    by (rule sort_key_distinct [OF assms(1)])
  show "set (sort_key f ys) = set (sort_key f xs)"
    using s by simp
qed

lemma count_all_but_one: "length (filter (\<lambda>i. i \<noteq> j) [0..<n]) = (if j < n then n - 1 else n)"
  by (induction n) auto

lemma formatForDisplay_valid:
  "isValidBankAccount (bank_account b) \<Longrightarrow> \<exists>acct. formatForDisplay (bank_account b) = Inr acct"
  by (cases "parseBankAccount (bank_account b)")
     (simp_all add: isValidBankAccount_def formatForDisplay_def)

lemma rank_in_sorted:
  fixes f :: "'a \<Rightarrow> int"
  assumes "sorted_wrt (<) (map f xs)" "i < length xs"
  shows "length (filter (\<lambda>a. f a < f (xs ! i)) xs) = i"
proof -
  have less: "f (xs ! k) < f (xs ! l)" if "k < l" "l < length xs" for k l
    using sorted_wrt_nth_less [OF assms(1), of k l] that by simp
  have "{k. k < length xs \<and> f (xs ! k) < f (xs ! i)} = {k. k < i}"
  proof (intro set_eqI iffI; clarify)
    fix k
    assume k: "k < length xs" "f (xs ! k) < f (xs ! i)"
    show "k < i"
    proof (rule ccontr)
      assume "\<not> k < i"
      then consider "k = i" | "i < k" by linarith
      then show False
      proof cases
        case 1
        then show False using k(2) by simp
      next
        case 2
        from less [OF this k(1)] k(2) show False by simp
      qed
    qed
  next
    fix k
    assume "k < i"
    then show "k < length xs \<and> f (xs ! k) < f (xs ! i)"
      using less [of k i] assms(2) by simp
  qed
  then show ?thesis
    by (simp add: length_filter_conv_card)
qed

lemma rankIn_sort_key:
  assumes "distinct (map apartment_number aps)" "i < length aps"
  shows "rankIn aps (sort_key apartment_number aps ! i) = i"
proof -
  let ?s = "sort_key apartment_number aps"
  let ?P = "\<lambda>a'. apartment_number a' < apartment_number (?s ! i)"
  have "mset (filter ?P aps) = mset (filter ?P ?s)"
    by (simp only: mset_filter mset_sort)
  then have "length (filter ?P aps) = length (filter ?P ?s)"
    by (rule mset_eq_length)
  also have "\<dots> = i"
    by (rule rank_in_sorted [OF sort_key_strict [OF assms(1)]]) (simp add: assms(2))
  finally show ?thesis
    by (simp add: rankIn_def)
qed

lemma generate_ok:
  assumes "fontRegularExists h" "fontBoldExists h" "formatForDisplay (bank_account b) = Inr acct"
    "allDecode h (fst (qrCodesFor h b m y (sort_key apartment_number aps) 0))"
  shows "generatePaymentSlipsPDF h aps b m y =
     Inr \<lparr>pageCount = pagesAfter (length aps), fonts = [Serbian, SerbianBold],
          slips = map (slipDrawnAt (sort_key apartment_number aps) b m
                         (fst (qrCodesFor h b m y (sort_key apartment_number aps) 0)) acct)
                      [0..<length aps]\<rparr>"
proof -
  define doc where "doc = registerFont SerbianBold (registerFont Serbian newDocument)"
  have d: "Serbian \<in> set (fonts doc)" "SerbianBold \<in> set (fonts doc)" "pageCount doc = pagesAfter 0"
    by (simp_all add: doc_def registerFont_def newDocument_def pagesAfter_def)
  have "generatePaymentSlipsPDF h aps b m y =
        drawSlips h (sort_key apartment_number aps) b m y
          (fst (qrCodesFor h b m y (sort_key apartment_number aps) 0)) 0 doc"
    using assms(1,2) by (simp add: generatePaymentSlipsPDF_def Let_def doc_def)
  also have "\<dots> = Inr (doc\<lparr>pageCount := pagesAfter (length (sort_key apartment_number aps)),
        slips := slips doc @ map (slipDrawnAt (sort_key apartment_number aps) b m
                         (fst (qrCodesFor h b m y (sort_key apartment_number aps) 0)) acct)
                      [0..<length (sort_key apartment_number aps)]\<rparr>)"
  proof (rule drawSlips_run [OF d(1,2) assms(3) d(3)])
    show "0 \<le> length (sort_key apartment_number aps)" by simp
    fix j img
    assume "at_index (fst (qrCodesFor h b m y (sort_key apartment_number aps) 0)) j = Some img"
    then show "imageDecodes h img"
      by (rule allDecode_at_index [OF assms(4)])
  qed
  finally show ?thesis
    by (simp add: doc_def registerFont_def newDocument_def)
qed

lemma generate_Inr:
  assumes "generatePaymentSlipsPDF h aps b m y = Inr doc" "aps \<noteq> []"
  shows "fontRegularExists h" "fontBoldExists h"
    "\<exists>acct. formatForDisplay (bank_account b) = Inr acct"
    "allDecode h (fst (qrCodesFor h b m y (sort_key apartment_number aps) 0))"
proof -
  let ?srt = "sort_key apartment_number aps"
  let ?qrs = "fst (qrCodesFor h b m y ?srt 0)"
  show r: "fontRegularExists h"
    using assms(1) by (auto simp: generatePaymentSlipsPDF_def split: if_splits)
  define doc0 where "doc0 = (if fontBoldExists h
     then registerFont SerbianBold (registerFont Serbian newDocument)
     else registerFont Serbian newDocument)"
  have "generatePaymentSlipsPDF h aps b m y = drawSlips h ?srt b m y ?qrs 0 doc0"
    using r by (simp add: generatePaymentSlipsPDF_def Let_def doc0_def)
  then have g: "drawSlips h ?srt b m y ?qrs 0 doc0 = Inr doc"
    using assms(1) by simp
  have n: "0 < length ?srt"
    using assms(2) by simp
  note p = drawSlips_Inr [OF g n]
  have "SerbianBold \<in> set (fonts doc0)"
    using p by blast
  then show "fontBoldExists h"
    by (simp add: doc0_def registerFont_def newDocument_def split: if_splits)
  show "\<exists>acct. formatForDisplay (bank_account b) = Inr acct"
    using p by blast
  show "allDecode h ?qrs"
  proof (rule allDecodeI)
    fix j img
    assume "j < length ?qrs" "at_index ?qrs j = Some img"
    then show "imageDecodes h img"
      using p by (simp add: qrCodesFor_length)
  qed
qed

lemma generate_Inr_doc:
  assumes "generatePaymentSlipsPDF h aps b m y = Inr doc" "aps \<noteq> []"
  shows "\<exists>acct. formatForDisplay (bank_account b) = Inr acct
     \<and> doc = \<lparr>pageCount = pagesAfter (length aps), fonts = [Serbian, SerbianBold],
          slips = map (slipDrawnAt (sort_key apartment_number aps) b m
                         (fst (qrCodesFor h b m y (sort_key apartment_number aps) 0)) acct)
                      [0..<length aps]\<rparr>"
proof -
  note p = generate_Inr [OF assms]
  obtain acct where acct: "formatForDisplay (bank_account b) = Inr acct"
    using p(3) by blast
  from generate_ok [OF p(1,2) acct p(4)] assms(1) acct show ?thesis
    by simp
qed

lemma generate_empty:
  assumes "fontRegularExists h"
  shows "generatePaymentSlipsPDF h [] building month year =
     Inr \<lparr>pageCount = 1, fonts = Serbian # (if fontBoldExists h then [SerbianBold] else []),
          slips = []\<rparr>"
proof -
  have "drawSlips h [] building month year qrs 0 doc = Inr doc" for qrs doc
    by (subst drawSlips.simps) simp
  then show ?thesis
    using assms by (simp add: generatePaymentSlipsPDF_def Let_def registerFont_def newDocument_def)
qed

lemma div3_step: "0 < (i::nat) \<Longrightarrow> i div 3 = (i - 1) div 3 + (if i mod 3 = 0 then 1 else 0)"
  by presburger

lemma pagesAfter_ceiling:
  assumes "0 < n"
  shows "pagesAfter n = (n + 2) div 3" "int (pagesAfter n) = \<lceil>of_nat n / (3::rat)\<rceil>"
proof -
  show p: "pagesAfter n = (n + 2) div 3"
    using assms by (simp add: pagesAfter_def max_def)
  have "\<lceil>of_nat n / (3::rat)\<rceil> = \<lceil>of_int (int n) / (of_int 3 :: rat)\<rceil>"
    by simp
  also have "\<dots> = - (- int n div 3)"
    by (rule ceiling_divide_eq_div)
  also have "\<dots> = int ((n + 2) div 3)"
    by presburger
  finally show "int (pagesAfter n) = \<lceil>of_nat n / (3::rat)\<rceil>"
    using p by simp
qed

lemma hasImage_slipDrawnAt:
  "hasImage (slipDrawnAt srt b m qrs acct i) \<longleftrightarrow> at_index qrs i \<noteq> None"
  by (simp add: hasImage_def slipDrawnAt_def slipOps_def isImage_def generatePayerInfo_def Let_def
      split: option.splits)

lemma hasCutLine_slipDrawnAt:
  "hasCutLine (slipDrawnAt srt b m qrs acct i) \<longleftrightarrow> i mod 3 < 2"
  by (auto simp: hasCutLine_def slipDrawnAt_def slipOps_def generatePayerInfo_def Let_def
      split: option.splits)

lemma slipOps_payer:
  "slipOps a b m k qr acct ! 4 = Text Serbian (owner_name a)"
  "slipOps a b m k qr acct ! 5 = Text Serbian (generatePayerInfo a b ! 1)"
  "slipOps a b m k qr acct ! 6 = Text Serbian (city b)"
  by (simp_all add: slipOps_def generatePayerInfo_def Let_def)

lemma slipOps_reference:
  "slipOps a b m k qr acct ! 33 = Text Serbian (generateReferenceNumber (apartment_number a) m)"
  by (simp add: slipOps_def generatePayerInfo_def Let_def)

lemma scenario_facts:
  "fontRegularExists scenario_host" "fontBoldExists scenario_host"
  "fontRegularExists (flaky_host j)" "fontBoldExists (flaky_host j)"
  "isValidBankAccount (bank_account scenario_building)"
  "scenario_apartments \<noteq> []" "length scenario_apartments = 4"
  "distinct (map apartment_number scenario_apartments)"
  "map apartment_number (sort_key apartment_number scenario_apartments) = [2, 5, 7, 9]"
  using scenario_account_valid
  by (simp_all add: scenario_host_def flaky_host_def scenario_building_def scenario_apartments_def
      scenario_apartment_def sort_key_def)

lemma scenario_display_account:
  "formatForDisplay (bank_account scenario_building) = Inr (js ''160-0000000548912-67'')"
  by (simp add: formatForDisplay_def scenario_building_def scenario_account_parsed)

text \<open>
  C2. For every non-empty list of apartments with pairwise different apartment numbers: the
  order in which the generator draws them is strictly increasing by apartment number and
  does not depend on the order of the input list. Every document it returns has one slip
  per apartment; the \<open>i\<close>-th slip carries the owner name and the reference number of the
  apartment with the \<open>i\<close>-th smallest number, so the references drawn increase from slip to
  slip; it is drawn in slot \<open>i mod 3\<close>, on a new page exactly when \<open>i > 0\<close> and
  \<open>i mod 3 = 0\<close> and on the page of its predecessor otherwise; and the document has
  \<open>ceil(N/3)\<close> pages. A document is returned when both fonts exist, the bank account of the
  building is valid and every image fetched is one that PDFKit decodes.
\<close>

theorem slips_sorted_and_paginated:
  "apartments \<noteq> [] \<and> distinct (map apartment_number apartments) \<longrightarrow>
     sorted_wrt (<) (map apartment_number (sort_key apartment_number apartments))
     \<and> mset (sort_key apartment_number apartments) = mset apartments
     \<and> (fontRegularExists h \<and> fontBoldExists h \<and> isValidBankAccount (bank_account building)
        \<and> allDecode h
             (fst (qrCodesFor h building month year (sort_key apartment_number apartments) 0)) \<longrightarrow>
          (\<exists>doc. generatePaymentSlipsPDF h apartments building month year = Inr doc))
     \<and> (\<forall>doc. generatePaymentSlipsPDF h apartments building month year = Inr doc \<longrightarrow>
          length (slips doc) = length apartments
          \<and> (\<forall>i < length apartments.
                (\<exists>a \<in> set apartments.
                    rankIn apartments a = i
                    \<and> a = sort_key apartment_number apartments ! i
                    \<and> ops (slips doc ! i) ! 4 = Text Serbian (owner_name a)
                    \<and> ops (slips doc ! i) ! 33 =
                        Text Serbian (generateReferenceNumber (apartment_number a) month))
                \<and> (\<exists>acct. formatForDisplay (bank_account building) = Inr acct
                     \<and> slips doc ! i =
                         slipDrawnAt (sort_key apartment_number apartments) building month
                           (fst (qrCodesFor h building month year
                                   (sort_key apartment_number apartments) 0))
                           acct i)
                \<and> slot (slips doc ! i) = i mod 3
                \<and> onPage (slips doc ! i) = i div 3
                \<and> (0 < i \<longrightarrow> onPage (slips doc ! i) =
                      onPage (slips doc ! (i - 1)) + (if i mod 3 = 0 then 1 else 0)))
          \<and> (\<forall>i j. i < j \<and> j < length apartments \<longrightarrow>
                (\<exists>n n'. n < n'
                   \<and> ops (slips doc ! i) ! 33 = Text Serbian (generateReferenceNumber n month)
                   \<and> ops (slips doc ! j) ! 33 = Text Serbian (generateReferenceNumber n' month)))
          \<and> onPage (slips doc ! 0) = 0
          \<and> pageCount doc = (length apartments + 2) div 3
          \<and> int (pageCount doc) = \<lceil>of_nat (length apartments) / (3::rat)\<rceil>)
     \<and> (\<forall>apartments'. mset apartments' = mset apartments \<longrightarrow>
          generatePaymentSlipsPDF h apartments' building month year =
          generatePaymentSlipsPDF h apartments building month year)"
proof
  assume a: "apartments \<noteq> [] \<and> distinct (map apartment_number apartments)"
  then have ne: "apartments \<noteq> []" and n: "0 < length apartments"
    and dist: "distinct (map apartment_number apartments)"
    by simp_all
  define srt where "srt = sort_key apartment_number apartments"
  define qrs where "qrs = fst (qrCodesFor h building month year srt 0)"
  have strict: "sorted_wrt (<) (map apartment_number srt)"
    unfolding srt_def by (rule sort_key_strict [OF dist])
  have perm: "mset srt = mset apartments"
    by (simp add: srt_def)
  have lsrt: "length srt = length apartments"
    by (simp add: srt_def)
  have inv: "generatePaymentSlipsPDF h apartments' building month year =
          generatePaymentSlipsPDF h apartments building month year"
    if "mset apartments' = mset apartments" for apartments'
  proof -
    have "sort_key apartment_number apartments' = sort_key apartment_number apartments"
      using that by (rule sort_key_of_permutation [OF dist])
    then show ?thesis
      by (simp add: generatePaymentSlipsPDF_def)
  qed
  have ex: "\<exists>doc. generatePaymentSlipsPDF h apartments building month year = Inr doc"
    if e: "fontRegularExists h \<and> fontBoldExists h \<and> isValidBankAccount (bank_account building)
        \<and> allDecode h qrs"
  proof -
    obtain acct where acct: "formatForDisplay (bank_account building) = Inr acct"
      using e formatForDisplay_valid by blast
    have "allDecode h (fst (qrCodesFor h building month year
             (sort_key apartment_number apartments) 0))"
      using e by (simp add: qrs_def srt_def)
    from generate_ok [OF _ _ acct this] e show ?thesis
      by simp
  qed
  have every: "length (slips doc) = length apartments
          \<and> (\<forall>i < length apartments.
                (\<exists>a \<in> set apartments.
                    rankIn apartments a = i
                    \<and> a = srt ! i
                    \<and> ops (slips doc ! i) ! 4 = Text Serbian (owner_name a)
                    \<and> ops (slips doc ! i) ! 33 =
                        Text Serbian (generateReferenceNumber (apartment_number a) month))
                \<and> (\<exists>acct. formatForDisplay (bank_account building) = Inr acct
                     \<and> slips doc ! i = slipDrawnAt srt building month qrs acct i)
                \<and> slot (slips doc ! i) = i mod 3
                \<and> onPage (slips doc ! i) = i div 3
                \<and> (0 < i \<longrightarrow> onPage (slips doc ! i) =
                      onPage (slips doc ! (i - 1)) + (if i mod 3 = 0 then 1 else 0)))
          \<and> (\<forall>i j. i < j \<and> j < length apartments \<longrightarrow>
                (\<exists>n n'. n < n'
                   \<and> ops (slips doc ! i) ! 33 = Text Serbian (generateReferenceNumber n month)
                   \<and> ops (slips doc ! j) ! 33 = Text Serbian (generateReferenceNumber n' month)))
          \<and> onPage (slips doc ! 0) = 0
          \<and> pageCount doc = (length apartments + 2) div 3
          \<and> int (pageCount doc) = \<lceil>of_nat (length apartments) / (3::rat)\<rceil>"
    if g: "generatePaymentSlipsPDF h apartments building month year = Inr doc" for doc
  proof -
    obtain acct where acct: "formatForDisplay (bank_account building) = Inr acct"
      and doc: "doc = \<lparr>pageCount = pagesAfter (length apartments), fonts = [Serbian, SerbianBold],
          slips = map (slipDrawnAt srt building month qrs acct) [0..<length apartments]\<rparr>"
      using generate_Inr_doc [OF g ne] unfolding srt_def qrs_def by blast
    have len: "length (slips doc) = length apartments"
      by (simp add: doc)
    have nth: "slips doc ! i = slipDrawnAt srt building month qrs acct i"
      if "i < length apartments" for i
      using that by (simp add: doc)
    have ref: "ops (slips doc ! i) ! 33 =
        Text Serbian (generateReferenceNumber (apartment_number (srt ! i)) month)"
      if "i < length apartments" for i
      by (simp add: nth [OF that] slipDrawnAt_def slipOps_reference)
    have own: "ops (slips doc ! i) ! 4 = Text Serbian (owner_name (srt ! i))"
      if "i < length apartments" for i
      by (simp add: nth [OF that] slipDrawnAt_def slipOps_payer(1))
    have mem: "srt ! i \<in> set apartments" if "i < length apartments" for i
    proof -
      have "srt ! i \<in> set srt"
        using that lsrt by simp
      then show ?thesis
        using mset_eq_setD [OF perm] by simp
    qed
    have rank: "rankIn apartments (srt ! i) = i" if "i < length apartments" for i
      unfolding srt_def by (rule rankIn_sort_key [OF dist that])
    have content: "\<exists>a \<in> set apartments.
                    rankIn apartments a = i
                    \<and> a = srt ! i
                    \<and> ops (slips doc ! i) ! 4 = Text Serbian (owner_name a)
                    \<and> ops (slips doc ! i) ! 33 =
                        Text Serbian (generateReferenceNumber (apartment_number a) month)"
      if i: "i < length apartments" for i
      using mem [OF i] rank [OF i] own [OF i] ref [OF i] by blast
    have place: "slot (slips doc ! i) = i mod 3" "onPage (slips doc ! i) = i div 3"
      if i: "i < length apartments" for i
      by (simp_all add: nth [OF i] slipDrawnAt_def)
    have step: "onPage (slips doc ! i) = onPage (slips doc ! (i - 1)) + (if i mod 3 = 0 then 1 else 0)"
      if i: "i < length apartments" "0 < i" for i
      using i nth [of i] nth [of "i - 1"] div3_step [of i] by (simp add: slipDrawnAt_def)
    have each: "\<forall>i < length apartments.
                (\<exists>a \<in> set apartments.
                    rankIn apartments a = i
                    \<and> a = srt ! i
                    \<and> ops (slips doc ! i) ! 4 = Text Serbian (owner_name a)
                    \<and> ops (slips doc ! i) ! 33 =
                        Text Serbian (generateReferenceNumber (apartment_number a) month))
                \<and> (\<exists>acct. formatForDisplay (bank_account building) = Inr acct
                     \<and> slips doc ! i = slipDrawnAt srt building month qrs acct i)
                \<and> slot (slips doc ! i) = i mod 3
                \<and> onPage (slips doc ! i) = i div 3
                \<and> (0 < i \<longrightarrow> onPage (slips doc ! i) =
                      onPage (slips doc ! (i - 1)) + (if i mod 3 = 0 then 1 else 0))"
      using content acct nth place step by blast
    have incr: "\<exists>n n'. n < n'
                   \<and> ops (slips doc ! i) ! 33 = Text Serbian (generateReferenceNumber n month)
                   \<and> ops (slips doc ! j) ! 33 = Text Serbian (generateReferenceNumber n' month)"
      if ij: "i < j \<and> j < length apartments" for i j
    proof -
      have "map apartment_number srt ! i < map apartment_number srt ! j"
        using sorted_wrt_nth_less [OF strict, of i j] ij lsrt by simp
      then have "apartment_number (srt ! i) < apartment_number (srt ! j)"
        using ij lsrt by simp
      then show ?thesis
        using ref [of i] ref [of j] ij by auto
    qed
    have first: "onPage (slips doc ! 0) = 0"
      using nth [OF n] by (simp add: slipDrawnAt_def)
    have pages: "pageCount doc = (length apartments + 2) div 3"
      "int (pageCount doc) = \<lceil>of_nat (length apartments) / (3::rat)\<rceil>"
      using pagesAfter_ceiling [OF n] by (simp_all add: doc)
    show ?thesis
      using len each incr first pages by blast
  qed
  show "sorted_wrt (<) (map apartment_number (sort_key apartment_number apartments))
     \<and> mset (sort_key apartment_number apartments) = mset apartments
     \<and> (fontRegularExists h \<and> fontBoldExists h \<and> isValidBankAccount (bank_account building)
        \<and> allDecode h
             (fst (qrCodesFor h building month year (sort_key apartment_number apartments) 0)) \<longrightarrow>
          (\<exists>doc. generatePaymentSlipsPDF h apartments building month year = Inr doc))
     \<and> (\<forall>doc. generatePaymentSlipsPDF h apartments building month year = Inr doc \<longrightarrow>
          length (slips doc) = length apartments
          \<and> (\<forall>i < length apartments.
                (\<exists>a \<in> set apartments.
                    rankIn apartments a = i
                    \<and> a = sort_key apartment_number apartments ! i
                    \<and> ops (slips doc ! i) ! 4 = Text Serbian (owner_name a)
                    \<and> ops (slips doc ! i) ! 33 =
                        Text Serbian (generateReferenceNumber (apartment_number a) month))
                \<and> (\<exists>acct. formatForDisplay (bank_account building) = Inr acct
                     \<and> slips doc ! i =
                         slipDrawnAt (sort_key apartment_number apartments) building month
                           (fst (qrCodesFor h building month year
                                   (sort_key apartment_number apartments) 0))
                           acct i)
                \<and> slot (slips doc ! i) = i mod 3
                \<and> onPage (slips doc ! i) = i div 3
                \<and> (0 < i \<longrightarrow> onPage (slips doc ! i) =
                      onPage (slips doc ! (i - 1)) + (if i mod 3 = 0 then 1 else 0)))
          \<and> (\<forall>i j. i < j \<and> j < length apartments \<longrightarrow>
                (\<exists>n n'. n < n'
                   \<and> ops (slips doc ! i) ! 33 = Text Serbian (generateReferenceNumber n month)
                   \<and> ops (slips doc ! j) ! 33 = Text Serbian (generateReferenceNumber n' month)))
          \<and> onPage (slips doc ! 0) = 0
          \<and> pageCount doc = (length apartments + 2) div 3
          \<and> int (pageCount doc) = \<lceil>of_nat (length apartments) / (3::rat)\<rceil>)
     \<and> (\<forall>apartments'. mset apartments' = mset apartments \<longrightarrow>
          generatePaymentSlipsPDF h apartments' building month year =
          generatePaymentSlipsPDF h apartments building month year)"
    using strict perm ex every inv unfolding srt_def qrs_def by blast
qed

theorem slips_sorted_and_paginated_witness:
  "scenario_apartments \<noteq> [] \<and> distinct (map apartment_number scenario_apartments)
   \<and> fontRegularExists scenario_host \<and> fontBoldExists scenario_host
   \<and> isValidBankAccount (bank_account scenario_building)
   \<and> allDecode scenario_host
        (fst (qrCodesFor scenario_host scenario_building 3 2025
                (sort_key apartment_number scenario_apartments) 0))
   \<and> map apartment_number (sort_key apartment_number scenario_apartments) = [2, 5, 7, 9]
   \<and> (\<exists>doc. generatePaymentSlipsPDF scenario_host scenario_apartments scenario_building 3 2025 = Inr doc
          \<and> length (slips doc) = 4 \<and> pageCount doc = 2
          \<and> ops (slips doc ! 0) ! 33 = Text Serbian (js ''02/03'')
          \<and> ops (slips doc ! 1) ! 33 = Text Serbian (js ''05/03'')
          \<and> ops (slips doc ! 2) ! 33 = Text Serbian (js ''07/03'')
          \<and> ops (slips doc ! 3) ! 33 = Text Serbian (js ''09/03'')
          \<and> slot (slips doc ! 2) = 2 \<and> onPage (slips doc ! 2) = 0
          \<and> slot (slips doc ! 3) = 0 \<and> onPage (slips doc ! 3) = 1)"
proof -
  let ?srt = "sort_key apartment_number scenario_apartments"
  have h0: "scenario_apartments \<noteq> [] \<and> distinct (map apartment_number scenario_apartments)"
    by (simp add: scenario_facts)
  have h1: "fontRegularExists scenario_host \<and> fontBoldExists scenario_host
     \<and> isValidBankAccount (bank_account scenario_building)
     \<and> allDecode scenario_host (fst (qrCodesFor scenario_host scenario_building 3 2025 ?srt 0))"
    by (simp add: scenario_facts allDecode_scenario)
  note t = slips_sorted_and_paginated
    [of scenario_apartments scenario_host scenario_building 3 2025]
  obtain doc where g:
     "generatePaymentSlipsPDF scenario_host scenario_apartments scenario_building 3 2025 = Inr doc"
    using t h0 h1 by blast
  have d: "length (slips doc) = length scenario_apartments"
     "\<forall>i < length scenario_apartments.
        ops (slips doc ! i) ! 33 =
          Text Serbian (generateReferenceNumber (apartment_number (?srt ! i)) 3)
        \<and> slot (slips doc ! i) = i mod 3 \<and> onPage (slips doc ! i) = i div 3"
     "pageCount doc = (length scenario_apartments + 2) div 3"
    using t h0 g by blast+
  have nums: "apartment_number (?srt ! 0) = 2" "apartment_number (?srt ! 1) = 5"
    "apartment_number (?srt ! 2) = 7" "apartment_number (?srt ! 3) = 9"
    using scenario_facts(9) nth_map [of _ ?srt apartment_number] scenario_facts(7)
    by (simp_all add: scenario_apartments_def scenario_apartment_def sort_key_def)
  have refs: "generateReferenceNumber 2 3 = js ''02/03''" "generateReferenceNumber 5 3 = js ''05/03''"
    "generateReferenceNumber 7 3 = js ''07/03''" "generateReferenceNumber 9 3 = js ''09/03''"
    by (simp_all add: generateReferenceNumber_def Let_def intToString_def decimal_small
        padStart_def js_def)
  have r: "ops (slips doc ! 0) ! 33 = Text Serbian (js ''02/03'')"
    "ops (slips doc ! 1) ! 33 = Text Serbian (js ''05/03'')"
    "ops (slips doc ! 2) ! 33 = Text Serbian (js ''07/03'')"
    "ops (slips doc ! 3) ! 33 = Text Serbian (js ''09/03'')"
    using d(2) nums refs by (simp_all add: scenario_facts)
  have "slot (slips doc ! 2) = 2 \<and> onPage (slips doc ! 2) = 0
      \<and> slot (slips doc ! 3) = 0 \<and> onPage (slips doc ! 3) = 1"
    using d(2) by (simp add: scenario_facts)
  moreover have "length (slips doc) = 4 \<and> pageCount doc = 2"
    using d(1,3) by (simp add: scenario_facts)
  ultimately show ?thesis
    using h0 h1 g r scenario_facts(9) by blast
qed

lemma drawPaymentSlip_image_throws:
  assumes "Serbian \<in> set (fonts doc)" "SerbianBold \<in> set (fonts doc)"
    "formatForDisplay (bank_account b) = Inr acct" "\<not> imageDecodes h img"
  shows "drawPaymentSlip h doc a b m y k (Some img) = Inl (Error (js ''Unknown image format.''))"
  using assms by (simp add: drawPaymentSlip_def)

text \<open>
  C3. If the QR fetch fails for exactly one of the \<open>N\<close> apartments, the one at index \<open>j\<close>
  of the sorted list, and the fonts exist, the bank account of the building is valid and
  the images fetched for the other apartments are ones that PDFKit decodes, then
  \<open>generatePaymentSlipsPDF\<close> returns a document (it does not reject) with \<open>N\<close> slips, of
  which \<open>N - 1\<close> carry a QR image; the slip of the failed apartment has none, and its entry
  in the list of QR codes is the only \<open>null\<close>.
\<close>

theorem one_failed_qr_leaves_document:
  "fontRegularExists h \<and> fontBoldExists h \<and> isValidBankAccount (bank_account building)
   \<and> j < length apartments
   \<and> (\<forall>i < length apartments. \<forall>d.
         paymentQRData h (sort_key apartment_number apartments ! i) building month = Inr d \<longrightarrow>
         (fetchFails h i d \<longleftrightarrow> i = j)
         \<and> (\<forall>r. network h i d QR_GENERATE_SIZE = Inr r \<and> i \<noteq> j \<longrightarrow> imageDecodes h (body r))) \<longrightarrow>
     (\<exists>doc. generatePaymentSlipsPDF h apartments building month year = Inr doc
        \<and> length (slips doc) = length apartments
        \<and> (\<forall>i < length apartments. hasImage (slips doc ! i) \<longleftrightarrow> i \<noteq> j)
        \<and> length (filter hasImage (slips doc)) = length apartments - 1
        \<and> (\<forall>i < length apartments.
              fst (qrCodesFor h building month year (sort_key apartment_number apartments) 0) ! i = None
              \<longleftrightarrow> i = j))"
proof
  assume a: "fontRegularExists h \<and> fontBoldExists h \<and> isValidBankAccount (bank_account building)
   \<and> j < length apartments
   \<and> (\<forall>i < length apartments. \<forall>d.
         paymentQRData h (sort_key apartment_number apartments ! i) building month = Inr d \<longrightarrow>
         (fetchFails h i d \<longleftrightarrow> i = j)
         \<and> (\<forall>r. network h i d QR_GENERATE_SIZE = Inr r \<and> i \<noteq> j \<longrightarrow> imageDecodes h (body r)))"
  then have v: "isValidBankAccount (bank_account building)" and j: "j < length apartments"
    and fr: "fontRegularExists h" and fb: "fontBoldExists h"
    by simp_all
  obtain acct where acct: "formatForDisplay (bank_account building) = Inr acct"
    using v formatForDisplay_valid by blast
  define srt where "srt = sort_key apartment_number apartments"
  define qrs where "qrs = fst (qrCodesFor h building month year srt 0)"
  define doc where "doc = \<lparr>pageCount = pagesAfter (length apartments), fonts = [Serbian, SerbianBold],
          slips = map (slipDrawnAt srt building month qrs acct) [0..<length apartments]\<rparr>"
  have lq: "length qrs = length apartments"
    by (simp add: qrs_def qrCodesFor_length srt_def)
  have f0: "\<forall>i < length apartments. \<forall>d.
         paymentQRData h (srt ! i) building month = Inr d \<longrightarrow>
         (fetchFails h i d \<longleftrightarrow> i = j)
         \<and> (\<forall>r. network h i d QR_GENERATE_SIZE = Inr r \<and> i \<noteq> j \<longrightarrow> imageDecodes h (body r))"
    using a by (simp add: srt_def)
  have f: "fetchFails h i d \<longleftrightarrow> i = j"
    if "i < length apartments" "paymentQRData h (srt ! i) building month = Inr d" for i d
    using f0 that by blast
  have dcd: "imageDecodes h (body r)"
    if "i < length apartments" "paymentQRData h (srt ! i) building month = Inr d"
       "network h i d QR_GENERATE_SIZE = Inr r" "i \<noteq> j" for i d r
    using f0 that by blast
  have entry: "qrs ! i =
       (case fst (generatePaymentQRCode h (srt ! i) building month year QR_GENERATE_SIZE i) of
          Inl err \<Rightarrow> None | Inr img \<Rightarrow> Some img)" if i: "i < length apartments" for i
  proof -
    have i': "i < length srt"
      using i by (simp add: srt_def)
    show ?thesis
      unfolding qrs_def using qrCodesFor_nth [OF v i', of h month year 0] by simp
  qed
  have none: "qrs ! i = None \<longleftrightarrow> i = j" if i: "i < length apartments" for i
  proof -
    obtain d where d: "paymentQRData h (srt ! i) building month = Inr d"
      using paymentQRData_valid [OF v] by blast
    have "qrs ! i = None \<longleftrightarrow> fetchFails h i d"
      using qr_none_iff [OF d, of year i] entry [OF i] by simp
    then show ?thesis
      using f [OF i d] by simp
  qed
  have "allDecode h qrs"
  proof (rule allDecodeI)
    fix i img
    assume "i < length qrs" and s: "at_index qrs i = Some img"
    then have i: "i < length apartments" and q: "qrs ! i = Some img"
      using lq by (simp_all add: at_index_def)
    obtain d where d: "paymentQRData h (srt ! i) building month = Inr d"
      using paymentQRData_valid [OF v] by blast
    have "(case fst (generatePaymentQRCode h (srt ! i) building month year QR_GENERATE_SIZE i) of
          Inl err \<Rightarrow> None | Inr img \<Rightarrow> Some img) = Some img"
      using entry [OF i] q by simp
    from qr_some [OF d this] obtain r where
      r: "network h i d QR_GENERATE_SIZE = Inr r" "img = body r" "\<not> fetchFails h i d"
      by blast
    have "i \<noteq> j"
      using f [OF i d] r(3) by simp
    from dcd [OF i d r(1) this] show "imageDecodes h img"
      using r(2) by simp
  qed
  then have "allDecode h (fst (qrCodesFor h building month year
        (sort_key apartment_number apartments) 0))"
    by (simp add: qrs_def srt_def)
  from generate_ok [OF fr fb acct this]
  have g: "generatePaymentSlipsPDF h apartments building month year = Inr doc"
    by (simp add: doc_def srt_def qrs_def)
  have img: "hasImage (slips doc ! i) \<longleftrightarrow> i \<noteq> j" if i: "i < length apartments" for i
    using i none [OF i] lq by (simp add: doc_def hasImage_slipDrawnAt at_index_def)
  have "filter hasImage (slips doc) =
        map (slipDrawnAt srt building month qrs acct)
          (filter (hasImage \<circ> slipDrawnAt srt building month qrs acct) [0..<length apartments])"
    by (simp add: doc_def filter_map)
  also have "filter (hasImage \<circ> slipDrawnAt srt building month qrs acct) [0..<length apartments] =
        filter (\<lambda>i. i \<noteq> j) [0..<length apartments]"
  proof (rule filter_cong [OF refl])
    fix i
    assume "i \<in> set [0..<length apartments]"
    then have i: "i < length apartments" by simp
    show "(hasImage \<circ> slipDrawnAt srt building month qrs acct) i = (i \<noteq> j)"
      using img [OF i] i by (simp add: doc_def)
  qed
  finally have cnt: "length (filter hasImage (slips doc)) = length apartments - 1"
    using j by (simp add: count_all_but_one)
  have len: "length (slips doc) = length apartments"
    by (simp add: doc_def)
  show "\<exists>doc. generatePaymentSlipsPDF h apartments building month year = Inr doc
        \<and> length (slips doc) = length apartments
        \<and> (\<forall>i < length apartments. hasImage (slips doc ! i) \<longleftrightarrow> i \<noteq> j)
        \<and> length (filter hasImage (slips doc)) = length apartments - 1
        \<and> (\<forall>i < length apartments.
              fst (qrCodesFor h building month year (sort_key apartment_number apartments) 0) ! i = None
              \<longleftrightarrow> i = j)"
    using g len img cnt none unfolding qrs_def srt_def by blast
qed

theorem one_failed_qr_leaves_document_witness:
  "fontRegularExists (flaky_host 1) \<and> fontBoldExists (flaky_host 1)
   \<and> isValidBankAccount (bank_account scenario_building)
   \<and> 1 < length scenario_apartments
   \<and> (\<exists>d0 d1.
         paymentQRData (flaky_host 1) (sort_key apartment_number scenario_apartments ! 0)
           scenario_building 3 = Inr d0
         \<and> \<not> fetchFails (flaky_host 1) 0 d0
         \<and> network (flaky_host 1) 0 d0 QR_GENERATE_SIZE = Inr \<lparr>status = 200, body = onePixelPNG\<rparr>
         \<and> imageDecodes (flaky_host 1) onePixelPNG
         \<and> paymentQRData (flaky_host 1) (sort_key apartment_number scenario_apartments ! 1)
           scenario_building 3 = Inr d1
         \<and> fetchFails (flaky_host 1) 1 d1)
   \<and> (\<exists>doc. generatePaymentSlipsPDF (flaky_host 1) scenario_apartments scenario_building 3 2025 = Inr doc
          \<and> length (slips doc) = 4
          \<and> length (filter hasImage (slips doc)) = 3
          \<and> \<not> hasImage (slips doc ! 1) \<and> hasImage (slips doc ! 0))"
proof -
  have f: "fetchFails (flaky_host 1) i d \<longleftrightarrow> i = 1" for i d
    by (simp add: fetchFails_def flaky_host_def scenario_host_def)
  have n: "network (flaky_host 1) i d QR_GENERATE_SIZE = Inr r \<Longrightarrow> body r = onePixelPNG" for i d r
    by (auto simp: flaky_host_def scenario_host_def split: if_splits)
  have n0: "network (flaky_host 1) 0 d QR_GENERATE_SIZE = Inr \<lparr>status = 200, body = onePixelPNG\<rparr>" for d
    by (simp add: flaky_host_def scenario_host_def)
  have dc: "imageDecodes (flaky_host 1) onePixelPNG"
    by (simp add: flaky_host_def scenario_host_def)
  have nd: "imageDecodes (flaky_host 1) (body r)"
    if "network (flaky_host 1) i d QR_GENERATE_SIZE = Inr r" for i d r
    using n [OF that] dc by simp
  have h: "fontRegularExists (flaky_host 1) \<and> fontBoldExists (flaky_host 1)
     \<and> isValidBankAccount (bank_account scenario_building)
     \<and> 1 < length scenario_apartments
     \<and> (\<forall>i < length scenario_apartments. \<forall>d.
         paymentQRData (flaky_host 1) (sort_key apartment_number scenario_apartments ! i)
           scenario_building 3 = Inr d \<longrightarrow>
         (fetchFails (flaky_host 1) i d \<longleftrightarrow> i = 1)
         \<and> (\<forall>r. network (flaky_host 1) i d QR_GENERATE_SIZE = Inr r \<and> i \<noteq> 1 \<longrightarrow>
                imageDecodes (flaky_host 1) (body r)))"
    using f nd by (auto simp: scenario_facts)
  obtain d0 where d0:
    "paymentQRData (flaky_host 1) (sort_key apartment_number scenario_apartments ! 0)
       scenario_building 3 = Inr d0"
    using paymentQRData_valid [OF scenario_facts(5)] by blast
  obtain d1 where d1:
    "paymentQRData (flaky_host 1) (sort_key apartment_number scenario_apartments ! 1)
       scenario_building 3 = Inr d1"
    using paymentQRData_valid [OF scenario_facts(5)] by blast
  have p: "\<exists>d0 d1.
         paymentQRData (flaky_host 1) (sort_key apartment_number scenario_apartments ! 0)
           scenario_building 3 = Inr d0
         \<and> \<not> fetchFails (flaky_host 1) 0 d0
         \<and> network (flaky_host 1) 0 d0 QR_GENERATE_SIZE = Inr \<lparr>status = 200, body = onePixelPNG\<rparr>
         \<and> imageDecodes (flaky_host 1) onePixelPNG
         \<and> paymentQRData (flaky_host 1) (sort_key apartment_number scenario_apartments ! 1)
           scenario_building 3 = Inr d1
         \<and> fetchFails (flaky_host 1) 1 d1"
    using d0 d1 f n0 dc by auto
  note t = one_failed_qr_leaves_document
    [of "flaky_host 1" scenario_building 1 scenario_apartments 3 2025]
  obtain doc where d:
     "generatePaymentSlipsPDF (flaky_host 1) scenario_apartments scenario_building 3 2025 = Inr doc"
     "length (slips doc) = length scenario_apartments"
     "\<forall>i < length scenario_apartments. hasImage (slips doc ! i) \<longleftrightarrow> i \<noteq> 1"
     "length (filter hasImage (slips doc)) = length scenario_apartments - 1"
    using t h by blast
  have "length (slips doc) = 4 \<and> length (filter hasImage (slips doc)) = 3
      \<and> \<not> hasImage (slips doc ! 1) \<and> hasImage (slips doc ! 0)"
    using d(2,3,4) by (simp add: scenario_facts)
  then show ?thesis
    using h p d(1) by blast
qed

text \<open>
  C4 (as amended). \<open>generatePaymentSlipsPDF\<close> has no check of its own for an empty list:
  called with one (the regular font being present) it returns a document of one blank page
  and no slip. The empty list is refused by the caller: the route that serves the PDF
  answers with status 400 before it calls the generator, and calls it for every non-empty
  list.
\<close>

theorem empty_list_rejected_by_route:
  "(fontRegularExists h \<longrightarrow>
      generatePaymentSlipsPDF h [] building month year =
        Inr \<lparr>pageCount = 1, fonts = Serbian # (if fontBoldExists h then [SerbianBold] else []),
             slips = []\<rparr>)
   \<and> pdfRoute h year month (Some building) [] = Json 400 (js ''Nema registrovanih stanova'')
   \<and> (apartments \<noteq> [] \<longrightarrow>
        pdfRoute h year month (Some building) apartments =
          (case generatePaymentSlipsPDF h apartments building month year of
             Inl err \<Rightarrow> Json 500 (js ''Greska prilikom generisanja PDF-a'')
           | Inr doc \<Rightarrow> PdfDownload doc (generatePDFFilename month year)))"
proof (intro conjI impI)
  assume "fontRegularExists h"
  then show "generatePaymentSlipsPDF h [] building month year =
        Inr \<lparr>pageCount = 1, fonts = Serbian # (if fontBoldExists h then [SerbianBold] else []),
             slips = []\<rparr>"
    by (rule generate_empty)
next
  show "pdfRoute h year month (Some building) [] = Json 400 (js ''Nema registrovanih stanova'')"
    by (simp add: pdfRoute_def)
next
  assume "apartments \<noteq> []"
  then show "pdfRoute h year month (Some building) apartments =
          (case generatePaymentSlipsPDF h apartments building month year of
             Inl err \<Rightarrow> Json 500 (js ''Greska prilikom generisanja PDF-a'')
           | Inr doc \<Rightarrow> PdfDownload doc (generatePDFFilename month year))"
    by (simp add: pdfRoute_def)
qed

theorem empty_list_rejected_by_route_witness:
  "fontRegularExists scenario_host
   \<and> generatePaymentSlipsPDF scenario_host [] scenario_building 3 2025 =
       Inr \<lparr>pageCount = 1, fonts = [Serbian, SerbianBold], slips = []\<rparr>
   \<and> pdfRoute scenario_host 2025 3 (Some scenario_building) [] =
       Json 400 (js ''Nema registrovanih stanova'')
   \<and> scenario_apartments \<noteq> []
   \<and> pdfRoute scenario_host 2025 3 (Some scenario_building) scenario_apartments =
       (case generatePaymentSlipsPDF scenario_host scenario_apartments scenario_building 3 2025 of
          Inl err \<Rightarrow> Json 500 (js ''Greska prilikom generisanja PDF-a'')
        | Inr doc \<Rightarrow> PdfDownload doc (generatePDFFilename 3 2025))"
proof -
  note t = empty_list_rejected_by_route
    [of scenario_host scenario_building 3 2025 scenario_apartments]
  have "generatePaymentSlipsPDF scenario_host [] scenario_building 3 2025 =
       Inr \<lparr>pageCount = 1, fonts = [Serbian, SerbianBold], slips = []\<rparr>"
    using t scenario_facts(1,2) by simp
  then show ?thesis
    using t scenario_facts(1,6) by blast
qed

text \<open>
  The property as the specification states it fails: the generator called with the empty list
  returns a document.
\<close>

theorem empty_list_counterexample:
  "generatePaymentSlipsPDF scenario_host [] scenario_building 3 2025 =
     Inr \<lparr>pageCount = 1, fonts = [Serbian, SerbianBold], slips = []\<rparr>"
  using generate_empty [OF scenario_facts(1), of scenario_building 3 2025]
  by (simp add: scenario_facts)

lemma payer_lines:
  "generatePayerInfo apartment building =
     [owner_name apartment,
      address building @ sprat @ intToString (floor_number apartment) @ stan @
        optIntToString (apartment_on_floor apartment),
      city building]"
  "generatePayerInfo_worker apartment building =
     [owner_name apartment, spec_payerLine apartment building, city building]"
  by (simp_all add: generatePayerInfo_def generatePayerInfo_worker_def spec_payerLine_def Let_def)

text \<open>
  C8. The specification has the second payer line of a slip show the building address, the
  floor and the apartment's number. The server's generator prints the property
  \<open>apartment_on_floor\<close> in that place. For the apartment of the scenario, number 5 on floor
  2, as the server's apartment routes store it, the row has no such property and the slip
  drawn on a document with both fonts has the owner name, then a line that ends in the word
  for apartment and \<open>undefined\<close>, then the city; for the same apartment with the column of
  the first schema, where it is the first of its floor, the line ends in 1. The line of the
  specification ends in 5, and the worker's generator prints that line.
\<close>

theorem payer_line_shows_position_on_floor:
  "drawPaymentSlip scenario_host fullDocument scenario_apartment scenario_building 3 2025 0
      (Some onePixelPNG) =
     Inr (fullDocument
          \<lparr>slips := [\<lparr>onPage = 0, slot = 0,
              ops = slipOps scenario_apartment scenario_building 3 0 (Some onePixelPNG)
                      (js ''160-0000000548912-67'')\<rparr>]\<rparr>)
   \<and> slipOps scenario_apartment scenario_building 3 0 (Some onePixelPNG)
        (js ''160-0000000548912-67'') ! 5 =
       Text Serbian (address scenario_building @ sprat @ js ''2'' @ stan @ js ''undefined'')
   \<and> generatePayerInfo scenario_apartment scenario_building ! 1 =
       address scenario_building @ sprat @ js ''2'' @ stan @ js ''undefined''
   \<and> generatePayerInfo (scenario_apartment\<lparr>apartment_on_floor := Some 1\<rparr>) scenario_building ! 1 =
       address scenario_building @ sprat @ js ''2'' @ stan @ js ''1''
   \<and> spec_payerLine scenario_apartment scenario_building =
       address scenario_building @ sprat @ js ''2'' @ stan @ js ''5''
   \<and> spec_payerLine (scenario_apartment\<lparr>apartment_on_floor := Some 1\<rparr>) scenario_building =
       address scenario_building @ sprat @ js ''2'' @ stan @ js ''5''
   \<and> generatePayerInfo scenario_apartment scenario_building ! 1 \<noteq>
       spec_payerLine scenario_apartment scenario_building
   \<and> generatePayerInfo (scenario_apartment\<lparr>apartment_on_floor := Some 1\<rparr>) scenario_building ! 1 \<noteq>
       spec_payerLine (scenario_apartment\<lparr>apartment_on_floor := Some 1\<rparr>) scenario_building
   \<and> generatePayerInfo_worker scenario_apartment scenario_building ! 1 =
       spec_payerLine scenario_apartment scenario_building
   \<and> generatePayerInfo apartment building ! 1 =
       address building @ sprat @ intToString (floor_number apartment) @ stan @
       optIntToString (apartment_on_floor apartment)"
proof -
  let ?A1 = "scenario_apartment\<lparr>apartment_on_floor := Some 1\<rparr>"
  have fd: "Serbian \<in> set (fonts fullDocument)" "SerbianBold \<in> set (fonts fullDocument)"
    "pageCount fullDocument = 1" "slips fullDocument = []"
    by (simp_all add: fullDocument_def registerFont_def newDocument_def)
  have dc: "imageDecodes scenario_host img" if "Some onePixelPNG = Some img" for img
    using that by (simp add: scenario_host_def)
  have d: "drawPaymentSlip scenario_host fullDocument scenario_apartment scenario_building 3 2025 0
      (Some onePixelPNG) =
     Inr (fullDocument
          \<lparr>slips := [\<lparr>onPage = 0, slot = 0,
              ops = slipOps scenario_apartment scenario_building 3 0 (Some onePixelPNG)
                      (js ''160-0000000548912-67'')\<rparr>]\<rparr>)"
    using drawPaymentSlip_ok [OF fd(1,2) scenario_display_account dc,
        of "Some onePixelPNG" scenario_apartment 3 2025 0] fd(3,4)
    by simp
  have e: "intToString (floor_number scenario_apartment) = js ''2''"
      "intToString (floor_number ?A1) = js ''2''"
      "optIntToString (apartment_on_floor scenario_apartment) = js ''undefined''"
      "optIntToString (apartment_on_floor ?A1) = js ''1''"
      "intToString (apartment_number scenario_apartment) = js ''5''"
      "intToString (apartment_number ?A1) = js ''5''"
    by (simp_all add: scenario_apartment_def intToString_def optIntToString_def decimal_small js_def)
  have g: "generatePayerInfo scenario_apartment scenario_building ! 1 =
       address scenario_building @ sprat @ js ''2'' @ stan @ js ''undefined''"
    by (simp add: payer_lines(1) e)
  have g1: "generatePayerInfo ?A1 scenario_building ! 1 =
       address scenario_building @ sprat @ js ''2'' @ stan @ js ''1''"
    unfolding payer_lines(1) e by simp
  have o: "slipOps scenario_apartment scenario_building 3 0 (Some onePixelPNG)
        (js ''160-0000000548912-67'') ! 5 =
       Text Serbian (address scenario_building @ sprat @ js ''2'' @ stan @ js ''undefined'')"
    unfolding slipOps_payer(2) g by (rule refl)
  have sp: "spec_payerLine scenario_apartment scenario_building =
       address scenario_building @ sprat @ js ''2'' @ stan @ js ''5''"
    by (simp add: spec_payerLine_def e)
  have sp1: "spec_payerLine ?A1 scenario_building =
       address scenario_building @ sprat @ js ''2'' @ stan @ js ''5''"
    unfolding spec_payerLine_def e by simp
  have ne: "generatePayerInfo scenario_apartment scenario_building ! 1 \<noteq>
       spec_payerLine scenario_apartment scenario_building"
    unfolding g sp by (simp add: js_def)
  have ne1: "generatePayerInfo ?A1 scenario_building ! 1 \<noteq> spec_payerLine ?A1 scenario_building"
    unfolding g1 sp1 by (simp add: js_def)
  have w: "generatePayerInfo_worker scenario_apartment scenario_building ! 1 =
       spec_payerLine scenario_apartment scenario_building"
    by (simp add: payer_lines(2))
  have gen: "generatePayerInfo apartment building ! 1 =
       address building @ sprat @ intToString (floor_number apartment) @ stan @
       optIntToString (apartment_on_floor apartment)"
    by (simp add: payer_lines(1))
  show ?thesis
    using d o g g1 sp sp1 ne ne1 w gen by blast
qed

lemma hasCutLine_slipOps:
  "hasCutLine \<lparr>onPage = p, slot = k, ops = slipOps a b m k qr acct\<rparr> \<longleftrightarrow> k < 2"
  by (auto simp: hasCutLine_def slipOps_def generatePayerInfo_def Let_def split: option.splits)

text \<open>
  C9 (as amended). A dashed cut line is drawn below a slip exactly when its slot is 0 or 1,
  whether or not another slip follows on the page, and never below slot 2: in every
  document the generator returns, the slip of index \<open>i\<close> has the line exactly when
  \<open>i mod 3 < 2\<close>. A document is returned when both fonts exist, the bank account of the
  building is valid and every image fetched is one that PDFKit decodes.
\<close>

theorem cut_line_below_slots_0_and_1:
  "(hasCutLine \<lparr>onPage = p, slot = k, ops = slipOps apartment building month k qr acct\<rparr> \<longleftrightarrow> k < 2)
   \<and> (drawPaymentSlip h doc apartment building month year k qr = Inr doc' \<longrightarrow>
        (hasCutLine (last (slips doc')) \<longleftrightarrow> k < 2))
   \<and> (\<forall>d. generatePaymentSlipsPDF h apartments building month year = Inr d \<longrightarrow>
        length (slips d) = length apartments
        \<and> (\<forall>i < length apartments. hasCutLine (slips d ! i) \<longleftrightarrow> i mod 3 < 2))
   \<and> (fontRegularExists h \<and> fontBoldExists h \<and> isValidBankAccount (bank_account building)
      \<and> allDecode h
           (fst (qrCodesFor h building month year (sort_key apartment_number apartments) 0)) \<longrightarrow>
        (\<exists>d. generatePaymentSlipsPDF h apartments building month year = Inr d))"
proof (intro conjI impI allI)
  show "hasCutLine \<lparr>onPage = p, slot = k, ops = slipOps apartment building month k qr acct\<rparr> \<longleftrightarrow> k < 2"
    by (rule hasCutLine_slipOps)
next
  assume "drawPaymentSlip h doc apartment building month year k qr = Inr doc'"
  then obtain acct' where
    "last (slips doc') = \<lparr>onPage = pageCount doc - 1, slot = k,
        ops = slipOps apartment building month k qr acct'\<rparr>"
    by (auto simp: drawPaymentSlip_def split: if_splits sum.splits)
  then show "hasCutLine (last (slips doc')) \<longleftrightarrow> k < 2"
    by (simp add: hasCutLine_slipOps)
next
  fix d
  assume g: "generatePaymentSlipsPDF h apartments building month year = Inr d"
  have s: "slips d = map (slipDrawnAt (sort_key apartment_number apartments) building month
             (fst (qrCodesFor h building month year (sort_key apartment_number apartments) 0))
             (projr (formatForDisplay (bank_account building)))) [0..<length apartments]"
  proof (cases "apartments = []")
    case True
    have "fontRegularExists h"
      using g by (auto simp: generatePaymentSlipsPDF_def split: if_splits)
    from generate_empty [OF this, of building month year] g True show ?thesis
      by auto
  next
    case False
    from generate_Inr_doc [OF g False] show ?thesis
      by auto
  qed
  show "length (slips d) = length apartments"
    by (simp add: s)
  fix i
  assume "i < length apartments"
  then show "hasCutLine (slips d ! i) \<longleftrightarrow> i mod 3 < 2"
    by (simp add: s hasCutLine_slipDrawnAt)
next
  assume a: "fontRegularExists h \<and> fontBoldExists h \<and> isValidBankAccount (bank_account building)
      \<and> allDecode h
           (fst (qrCodesFor h building month year (sort_key apartment_number apartments) 0))"
  then obtain acct' where acct: "formatForDisplay (bank_account building) = Inr acct'"
    using formatForDisplay_valid by blast
  from generate_ok [OF _ _ acct, of h month year apartments] a
  show "\<exists>d. generatePaymentSlipsPDF h apartments building month year = Inr d"
    by simp
qed

theorem cut_line_below_slots_0_and_1_witness:
  "drawPaymentSlip scenario_host fullDocument scenario_apartment scenario_building 3 2025 0
      (Some onePixelPNG) =
     Inr (fullDocument
          \<lparr>slips := [\<lparr>onPage = 0, slot = 0,
              ops = slipOps scenario_apartment scenario_building 3 0 (Some onePixelPNG)
                      (js ''160-0000000548912-67'')\<rparr>]\<rparr>)
   \<and> hasCutLine (last (slips (fullDocument
          \<lparr>slips := [\<lparr>onPage = 0, slot = 0,
              ops = slipOps scenario_apartment scenario_building 3 0 (Some onePixelPNG)
                      (js ''160-0000000548912-67'')\<rparr>]\<rparr>)))
   \<and> fontRegularExists scenario_host \<and> fontBoldExists scenario_host
   \<and> isValidBankAccount (bank_account scenario_building)
   \<and> allDecode scenario_host
        (fst (qrCodesFor scenario_host scenario_building 3 2025
                (sort_key apartment_number scenario_apartments) 0))
   \<and> (\<exists>d. generatePaymentSlipsPDF scenario_host scenario_apartments scenario_building 3 2025 = Inr d
          \<and> length (slips d) = 4
          \<and> hasCutLine (slips d ! 0) \<and> hasCutLine (slips d ! 1) \<and> \<not> hasCutLine (slips d ! 2)
          \<and> hasCutLine (slips d ! 3))"
proof -
  let ?D' = "fullDocument\<lparr>slips := [\<lparr>onPage = 0, slot = 0,
              ops = slipOps scenario_apartment scenario_building 3 0 (Some onePixelPNG)
                      (js ''160-0000000548912-67'')\<rparr>]\<rparr>"
  have fd: "Serbian \<in> set (fonts fullDocument)" "SerbianBold \<in> set (fonts fullDocument)"
    "pageCount fullDocument = 1" "slips fullDocument = []"
    by (simp_all add: fullDocument_def registerFont_def newDocument_def)
  have dc: "imageDecodes scenario_host img" if "Some onePixelPNG = Some img" for img
    using that by (simp add: scenario_host_def)
  have d: "drawPaymentSlip scenario_host fullDocument scenario_apartment scenario_building 3 2025 0
      (Some onePixelPNG) = Inr ?D'"
    using drawPaymentSlip_ok [OF fd(1,2) scenario_display_account dc,
        of "Some onePixelPNG" scenario_apartment 3 2025 0] fd(3,4)
    by simp
  note t = cut_line_below_slots_0_and_1
    [of _ _ scenario_apartment scenario_building 3 "Some onePixelPNG" _ scenario_host fullDocument
        2025 ?D' scenario_apartments]
  have c1: "hasCutLine (last (slips ?D'))"
    using t d by simp
  have h: "fontRegularExists scenario_host \<and> fontBoldExists scenario_host
     \<and> isValidBankAccount (bank_account scenario_building)
     \<and> allDecode scenario_host
        (fst (qrCodesFor scenario_host scenario_building 3 2025
                (sort_key apartment_number scenario_apartments) 0))"
    by (simp add: scenario_facts allDecode_scenario)
  obtain dd where dd:
    "generatePaymentSlipsPDF scenario_host scenario_apartments scenario_building 3 2025 = Inr dd"
    using t h by blast
  have p: "length (slips dd) = length scenario_apartments"
    "\<forall>i < length scenario_apartments. hasCutLine (slips dd ! i) \<longleftrightarrow> i mod 3 < 2"
    using t dd by blast+
  have "length (slips dd) = 4 \<and> hasCutLine (slips dd ! 0) \<and> hasCutLine (slips dd ! 1)
          \<and> \<not> hasCutLine (slips dd ! 2) \<and> hasCutLine (slips dd ! 3)"
    using p by (simp add: scenario_facts)
  then show ?thesis
    using d c1 h dd by blast
qed

text \<open>
  The property as the specification states it fails: the document of a single apartment has
  one page and one slip, in slot 0; that slip is the last of its page and has a cut line
  below it.
\<close>

theorem cut_line_counterexample:
  "map_sum id spec_noCutLineAfterLastSlot
     (generatePaymentSlipsPDF scenario_host [scenario_apartment] scenario_building 3 2025) = Inr False
   \<and> map_sum id pageCount
     (generatePaymentSlipsPDF scenario_host [scenario_apartment] scenario_building 3 2025) = Inr 1
   \<and> map_sum id (map slot \<circ> slips)
     (generatePaymentSlipsPDF scenario_host [scenario_apartment] scenario_building 3 2025) = Inr [0]
   \<and> map_sum id (map hasCutLine \<circ> slips)
     (generatePaymentSlipsPDF scenario_host [scenario_apartment] scenario_building 3 2025) = Inr [True]"
proof -
  have g: "generatePaymentSlipsPDF scenario_host [scenario_apartment] scenario_building 3 2025 =
     Inr \<lparr>pageCount = pagesAfter 1, fonts = [Serbian, SerbianBold],
          slips = [slipDrawnAt (sort_key apartment_number [scenario_apartment]) scenario_building 3
                     (fst (qrCodesFor scenario_host scenario_building 3 2025
                        (sort_key apartment_number [scenario_apartment]) 0))
                     (js ''160-0000000548912-67'') 0]\<rparr>"
    using generate_ok [where aps = "[scenario_apartment]" and m = 3 and y = 2025,
        OF scenario_facts(1,2) scenario_display_account allDecode_scenario(1)]
    by simp
  show ?thesis
    unfolding g
    by (simp add: spec_noCutLineAfterLastSlot_def lastOnPage_def hasCutLine_slipDrawnAt
        pagesAfter_def) (simp add: slipDrawnAt_def)
qed

end
